theory Spec2Isabelle
  imports Main
begin

section \<open>feediverse: the data the pipeline works on\<close>

text \<open>
  The embedding follows \<^verbatim>\<open>src/feediverse.py\<close>. A Python \<^verbatim>\<open>str\<close> is a
  \<^typ>\<open>string\<close>, one list element for each character. An aware \<^verbatim>\<open>datetime\<close>
  is an instant: the number of microseconds since 0001-01-01T00:00:00 UTC, so that
  comparison and \<^verbatim>\<open>max\<close> of datetimes are those of integers. The clock, the
  default watermark and the dates that \<^verbatim>\<open>isoformat\<close> writes into the state file are
  aware. The date of a feed entry need not name a time zone: then the parsed datetime is
  naive, and comparing it with an aware one raises TypeError (see \<open>aware_instant\<close>
  below). An exception is a value of \<open>pyerror\<close>, and a function that may raise
  returns \<open>pyerror + 'a\<close>.
\<close>

type_synonym instant = int

datatype pyerror =
    KeyError | AttributeError | TypeError | ValueError | ParserError
  | JSONDecodeError | ExternalError

text \<open>
  \<^verbatim>\<open>datetime(MINYEAR, 1, 1, 0, 0, 0, 0, timezone.utc)\<close>, the default of
  \<^verbatim>\<open>state["updated"]\<close> in \<^verbatim>\<open>read_state\<close>.
\<close>

definition datetime_min :: instant where
  "datetime_min = 0"

text \<open>
  The values a key of a normalised entry can hold (see \<open>get_entry\<close> below), which are
  also the values the dedupe ledger stores: \<^verbatim>\<open>None\<close>, a string, a list of strings
  (the empty list included), a non-empty list of link dictionaries (given by its first
  element and the rest), a datetime. A link dictionary is the list of its items, listed
  by key, so that equal dictionaries are equal lists.
\<close>

type_synonym link = "(string \<times> string) list"

datatype pyval =
    PNone
  | PStr string
  | PStrs "string list"
  | PLinks link "link list"
  | PDatetime instant

text \<open>
  What \<^verbatim>\<open>state['dupecheck'][url]\<close> can be: a list of values, or (after
  \<^verbatim>\<open>dict.update\<close> from a sequence of pairs in \<^verbatim>\<open>read_state\<close>) a string.
\<close>

datatype slot = SList "pyval list" | SStr string

text \<open>
  What \<^verbatim>\<open>state['dupecheck']\<close> can be: the \<^verbatim>\<open>defaultdict(list)\<close> that
  \<^verbatim>\<open>read_state\<close> builds, its items in insertion order, or the object that line 105
  of \<^verbatim>\<open>main\<close> stores in its place.
\<close>

datatype top = TDict "(string \<times> slot) list" | TSlot slot

record state =
  updated :: "(string \<times> instant) list"
  dupecheck :: top

subsection \<open>Dictionaries\<close>

text \<open>
  A \<^verbatim>\<open>dict\<close> is the list of its items in insertion order, keys distinct.
  \<open>dict_set\<close> is \<^verbatim>\<open>d[k] = v\<close>: an existing key keeps its place.
  \<open>defaultdict_get\<close> is \<^verbatim>\<open>d[k]\<close> on a \<^verbatim>\<open>defaultdict\<close>: a missing key
  is inserted with the default. \<open>dict_lookup\<close> reads without inserting.
\<close>

fun dict_set :: "'k \<Rightarrow> 'v \<Rightarrow> ('k \<times> 'v) list \<Rightarrow> ('k \<times> 'v) list" where
  "dict_set k v [] = [(k, v)]"
| "dict_set k v (p # ps) = (if fst p = k then (k, v) # ps else p # dict_set k v ps)"

definition dict_lookup :: "'v \<Rightarrow> ('k \<times> 'v) list \<Rightarrow> 'k \<Rightarrow> 'v" where
  "dict_lookup dflt d k = (case map_of d k of None \<Rightarrow> dflt | Some v \<Rightarrow> v)"

definition defaultdict_get :: "'v \<Rightarrow> ('k \<times> 'v) list \<Rightarrow> 'k \<Rightarrow> 'v \<times> ('k \<times> 'v) list" where
  "defaultdict_get dflt d k =
     (case map_of d k of
        None \<Rightarrow> (dflt, d @ [(k, dflt)])
      | Some v \<Rightarrow> (v, d))"

subsection \<open>The dedupe ledger: \<^verbatim>\<open>update_dupes\<close>\<close>

text \<open>
  \<^verbatim>\<open>
  def update_dupes(dupes, new):
     if len(dupes) > 50:
       del dupes[0]
     dupes.append(new)
  \<close>
  On a list the length test comes first, then the append. On a string,
  \<^verbatim>\<open>del dupes[0]\<close> raises TypeError and \<^verbatim>\<open>dupes.append\<close> raises AttributeError.
\<close>

fun update_dupes :: "slot \<Rightarrow> pyval \<Rightarrow> pyerror + slot" where
  "update_dupes (SList dupes) new =
     Inr (SList ((if length dupes > 50 then tl dupes else dupes) @ [new]))"
| "update_dupes (SStr s) new =
     Inl (if length s > 50 then TypeError else AttributeError)"

text \<open>A sequence of \<^verbatim>\<open>update_dupes\<close> calls on the same ledger.\<close>

fun record_all :: "slot \<Rightarrow> pyval list \<Rightarrow> pyerror + slot" where
  "record_all dupes [] = Inr dupes"
| "record_all dupes (v # vs) =
     (case update_dupes dupes v of
        Inl e \<Rightarrow> Inl e
      | Inr dupes' \<Rightarrow> record_all dupes' vs)"

subsection \<open>The state file\<close>

text \<open>
  The JSON document of the state file has the two keys \<^verbatim>\<open>"updated"\<close> (feed URL to
  ISO-8601 string, given by its items) and \<^verbatim>\<open>"dupecheck"\<close>, each of which may be
  missing. The file is
  absent, holds such a document, or holds text that is not JSON (\<open>Corrupt\<close>: what a
  \<^verbatim>\<open>json.dump\<close> that raised part-way leaves behind).
\<close>

record state_doc =
  doc_updated :: "(string \<times> string) list option"
  doc_dupecheck :: "top option"

datatype file_content = Absent | Doc state_doc | Corrupt

subsection \<open>Feed entries\<close>

text \<open>
  An entry as \<^verbatim>\<open>feedparser\<close> delivers it: every key may be missing. A tag is given by
  its \<^verbatim>\<open>term\<close>, which may be \<^verbatim>\<open>None\<close>; a content block by its
  \<^verbatim>\<open>value\<close>, which may be missing. \<^verbatim>\<open>updated\<close> is the date string of the
  feed, \<^verbatim>\<open>updated_parsed\<close> is the \<^verbatim>\<open>struct_time\<close> in UTC that
  \<^verbatim>\<open>feedparser\<close> made of it, here the number of whole seconds it stands for (tuples
  of normalised UTC fields compare as these numbers do), or \<^verbatim>\<open>None\<close>.
\<close>

record raw_entry =
  r_tags :: "string option list option"
  r_summary :: "string option"
  r_content :: "string option list option"
  r_comments :: "string option"
  r_id :: "string option"
  r_link :: "string option"
  r_links :: "link list option"
  r_title :: "string option"
  r_updated :: "string option"
  r_updated_parsed :: "int option"

text \<open>The dictionary that \<^verbatim>\<open>get_entry\<close> returns, one field for each key.\<close>

record entry =
  e_url :: string
  e_link :: string
  e_links :: "link list"
  e_comments :: string
  e_title :: string
  e_summary :: string
  e_content :: pyval
  e_hashtags :: string
  e_images :: "string list option"
  e_updated :: instant

text \<open>
  A feed of the configuration: \<^verbatim>\<open>feed['url']\<close>, \<^verbatim>\<open>feed['template']\<close> and
  \<^verbatim>\<open>feed.get('include_images', False)\<close>. The parsed command line: \<^verbatim>\<open>--dry-run\<close>,
  \<^verbatim>\<open>--verbose\<close>, \<^verbatim>\<open>--delay\<close> and \<^verbatim>\<open>--dedupe TAG\<close>, whose default is the
  empty string.
\<close>

record feed =
  f_url :: string
  f_template :: string
  f_include_images :: bool

record args =
  dry_run :: bool
  verbose :: bool
  delay :: bool
  dedupe :: string

subsection \<open>What the program does to the outside, and what the outside answers\<close>

text \<open>
  Every call that leaves the program is an event of the trace, in the order of the calls:
  the \<^verbatim>\<open>print\<close> calls of lines 66, 72/76, 81 and 100, \<^verbatim>\<open>feedparser.parse\<close>,
  \<^verbatim>\<open>requests.get\<close>, \<^verbatim>\<open>masto.media_post\<close>, \<^verbatim>\<open>masto.status_post\<close>,
  \<^verbatim>\<open>time.sleep\<close>, and the write of the state file with what the file holds afterwards.
  The last seven are the events of the start of \<^verbatim>\<open>main\<close> and of \<^verbatim>\<open>setup\<close>:
  the two prints of lines 46-47, \<^verbatim>\<open>input\<close> with its prompt, the print of line 233,
  \<^verbatim>\<open>Mastodon.create_app\<close> with the instance and the name of the app,
  \<^verbatim>\<open>log_in\<close> with the user name, the write of the configuration file with the
  feeds it lists, and the five prints of lines 264-268.
\<close>

datatype event =
    PrintFetching string instant
  | FeedparserParse string
  | Print string
  | PrintSkipping string string
  | RequestsGet string
  | MediaPost string string
  | StatusPost string "nat list"
  | PrintDelaying nat
  | Sleep nat
  | SaveState file_content
  | PrintUsingFiles
  | Input string
  | PrintNeedToken
  | CreateApp string string
  | LogIn string
  | SaveConfig "feed list"
  | PrintSaved

record response =
  content :: string
  content_type :: "string option"

text \<open>
  The libraries and services the program calls are parameters. The first seven are
  functions of their arguments: \<^verbatim>\<open>dateutil.parser.parse\<close>, given by the instant
  of the datetime it returns (a naive one read as UTC) and by whether that datetime is
  naive, its \<^verbatim>\<open>tzinfo\<close> being \<^verbatim>\<open>None\<close>; \<^verbatim>\<open>datetime.isoformat\<close>;
  \<^verbatim>\<open>str.format\<close> on the keys of an entry; the \<^verbatim>\<open>cleanup\<close> of markup to text
  (BeautifulSoup's \<^verbatim>\<open>get_text\<close> and four regular expressions; no property below
  depends on what it returns); the \<^verbatim>\<open>src\<close> attributes of the \<^verbatim>\<open>img\<close>
  elements that BeautifulSoup finds, in document order; \<^verbatim>\<open>str.lower\<close>. The others
  answer for the world and may answer differently at each call: they are given the trace
  of all events before the call. \<^verbatim>\<open>feedparser.parse\<close> does not raise when the feed
  cannot be fetched or is not well formed: it notes the failure in the \<^verbatim>\<open>bozo\<close>
  field of its result, which the program never reads, and returns the entries it could
  make out, none when the server gave no answer. A feed that failed is therefore a feed
  with those entries.
\<close>

record env =
  dateutil_parse :: "string \<Rightarrow> pyerror + instant"
  tzinfo_missing :: "string \<Rightarrow> bool"
  isoformat :: "instant \<Rightarrow> string"
  str_format :: "string \<Rightarrow> entry \<Rightarrow> pyerror + string"
  cleanup :: "string \<Rightarrow> string"
  img_srcs :: "string \<Rightarrow> string option list"
  str_lower :: "string \<Rightarrow> string"
  feedparser_parse :: "event list \<Rightarrow> string \<Rightarrow> pyerror + raw_entry list"
  datetime_now :: "event list \<Rightarrow> instant"
  requests_get :: "event list \<Rightarrow> string \<Rightarrow> pyerror + response"
  media_post :: "event list \<Rightarrow> string \<Rightarrow> string \<Rightarrow> pyerror + nat"
  status_post :: "event list \<Rightarrow> string \<Rightarrow> nat list \<Rightarrow> pyerror option"
  random_draw :: "event list \<Rightarrow> nat"
  user_input :: "event list \<Rightarrow> string \<Rightarrow> string"
  create_app :: "event list \<Rightarrow> string \<Rightarrow> string \<Rightarrow> pyerror option"
  log_in :: "event list \<Rightarrow> string \<Rightarrow> string \<Rightarrow> pyerror option"

text \<open>
  \<^verbatim>\<open>random.randrange(start, stop)\<close> is \<open>start\<close> plus a number below
  \<open>stop - start\<close>, which the generator's draw decides.
\<close>

definition randrange :: "nat \<Rightarrow> nat \<Rightarrow> nat \<Rightarrow> nat" where
  "randrange draw start stop = start + draw mod (stop - start)"

subsection \<open>Normalising an entry: \<^verbatim>\<open>find_images\<close> and \<^verbatim>\<open>get_entry\<close>\<close>

text \<open>
  \<^verbatim>\<open>
  def find_images(html):
      if not html:
          return
      urls = []
      soup = BeautifulSoup(html, 'html.parser')
      for tag in soup.find_all(["img"]):
          if tag.name == "img":
              url = tag.get("src")
          if url and url not in urls:
              urls.append(url)
      return urls
  \<close>
\<close>

fun collect_urls :: "string option list \<Rightarrow> string list \<Rightarrow> string list" where
  "collect_urls [] urls = urls"
| "collect_urls (src # srcs) urls =
     collect_urls srcs
       (case src of
          None \<Rightarrow> urls
        | Some url \<Rightarrow> if url \<noteq> [] \<and> url \<notin> set urls then urls @ [url] else urls)"

definition find_images :: "env \<Rightarrow> string \<Rightarrow> string list option" where
  "find_images env html =
     (if html = [] then None else Some (collect_urls (img_srcs env html) []))"

text \<open>
  The hashtag of a tag term:
  \<^verbatim>\<open>'#{}'.format(term.replace(' ', '_').replace('.', '').replace('-', ''))\<close>;
  a term that is \<^verbatim>\<open>None\<close> has no \<^verbatim>\<open>replace\<close>.
\<close>

definition hashtag :: "string \<Rightarrow> string" where
  "hashtag t =
     CHR ''#'' # filter (\<lambda>c. c \<noteq> CHR ''-'') (filter (\<lambda>c. c \<noteq> CHR ''.'')
       (map (\<lambda>c. if c = CHR '' '' then CHR ''_'' else c) t))"

fun hashtags_of :: "string option list \<Rightarrow> pyerror + string list" where
  "hashtags_of [] = Inr []"
| "hashtags_of (None # tags) = Inl AttributeError"
| "hashtags_of (Some t # tags) =
     (case hashtags_of tags of
        Inl e \<Rightarrow> Inl e
      | Inr hs \<Rightarrow> Inr (hashtag t # hs))"

fun join_spaces :: "string list \<Rightarrow> string" where
  "join_spaces [] = []"
| "join_spaces [h] = h"
| "join_spaces (h # hs) = h @ CHR '' '' # join_spaces hs"

text \<open>
  \<^verbatim>\<open>dateutil.parser.parse(e['updated'])\<close>: KeyError when the key is missing.
  \<^verbatim>\<open>get_entry\<close> stores the datetime as it is parsed; \<^verbatim>\<open>get_feed\<close> hands an
  entry to \<^verbatim>\<open>get_entry\<close> only after line 114 has compared its date with the clock,
  so that the datetime is an aware one (lemma \<open>get_feed_entries_aware\<close>).
\<close>

definition entry_instant :: "env \<Rightarrow> raw_entry \<Rightarrow> pyerror + instant" where
  "entry_instant env e =
     (case r_updated e of
        None \<Rightarrow> Inl KeyError
      | Some s \<Rightarrow> dateutil_parse env s)"

text \<open>
  \<^verbatim>\<open>get_entry\<close> (lines 129-151). The attributes \<^verbatim>\<open>id\<close>, \<^verbatim>\<open>link\<close>,
  \<^verbatim>\<open>links\<close> and \<^verbatim>\<open>title\<close> raise AttributeError when missing; the other keys
  are read with \<^verbatim>\<open>get\<close> and a default. \<^verbatim>\<open>content\<close> is the cleaned value of
  the first block when the list is not empty, and is left as it is (the default
  \<^verbatim>\<open>''\<close>, or the empty list) otherwise.
\<close>

definition get_entry :: "env \<Rightarrow> raw_entry \<Rightarrow> pyerror + entry" where
  "get_entry env e =
     (case hashtags_of (case r_tags e of None \<Rightarrow> [] | Some tags \<Rightarrow> tags) of
        Inl err \<Rightarrow> Inl err
      | Inr hashtags \<Rightarrow>
          let summary = (case r_summary e of None \<Rightarrow> [] | Some s \<Rightarrow> s);
              content = (case r_content e of
                           None \<Rightarrow> PStr []
                         | Some [] \<Rightarrow> PStrs []
                         | Some (c # cs) \<Rightarrow>
                             PStr (cleanup env (case c of None \<Rightarrow> [] | Some v \<Rightarrow> v)));
              comments = (case r_comments e of None \<Rightarrow> [] | Some s \<Rightarrow> s)
          in (case r_id e of
                None \<Rightarrow> Inl AttributeError
              | Some url \<Rightarrow>
            (case r_link e of
                None \<Rightarrow> Inl AttributeError
              | Some link \<Rightarrow>
            (case r_links e of
                None \<Rightarrow> Inl AttributeError
              | Some links \<Rightarrow>
            (case r_title e of
                None \<Rightarrow> Inl AttributeError
              | Some title \<Rightarrow>
            (case entry_instant env e of
                Inl err \<Rightarrow> Inl err
              | Inr t \<Rightarrow>
                  Inr \<lparr> e_url = url, e_link = link, e_links = links,
                        e_comments = comments, e_title = cleanup env title,
                        e_summary = cleanup env summary, e_content = content,
                        e_hashtags = join_spaces hashtags,
                        e_images = find_images env summary,
                        e_updated = t \<rparr>))))))"

text \<open>\<^verbatim>\<open>entry[key]\<close> on the dictionary of \<^verbatim>\<open>get_entry\<close>.\<close>

definition entry_get :: "entry \<Rightarrow> string \<Rightarrow> pyerror + pyval" where
  "entry_get e k =
     (if k = ''url'' then Inr (PStr (e_url e))
      else if k = ''link'' then Inr (PStr (e_link e))
      else if k = ''links'' then
        Inr (case e_links e of [] \<Rightarrow> PStrs [] | l # ls \<Rightarrow> PLinks l ls)
      else if k = ''comments'' then Inr (PStr (e_comments e))
      else if k = ''title'' then Inr (PStr (e_title e))
      else if k = ''summary'' then Inr (PStr (e_summary e))
      else if k = ''content'' then Inr (e_content e)
      else if k = ''hashtags'' then Inr (PStr (e_hashtags e))
      else if k = ''images'' then
        Inr (case e_images e of None \<Rightarrow> PNone | Some urls \<Rightarrow> PStrs urls)
      else if k = ''updated'' then Inr (PDatetime (e_updated e))
      else Inl KeyError)"

subsection \<open>Fetching and filtering a feed: \<^verbatim>\<open>get_feed\<close>\<close>

text \<open>
  A list comprehension \<^verbatim>\<open>[e for e in entries if p(e)]\<close> whose condition may
  raise: the entries are tested in order and the first exception ends the comprehension.
\<close>

fun select :: "('a \<Rightarrow> pyerror + bool) \<Rightarrow> 'a list \<Rightarrow> pyerror + 'a list" where
  "select p [] = Inr []"
| "select p (e # es) =
     (case p e of
        Inl err \<Rightarrow> Inl err
      | Inr b \<Rightarrow>
          (case select p es of
             Inl err \<Rightarrow> Inl err
           | Inr es' \<Rightarrow> Inr (if b then e # es' else es')))"

text \<open>
  The left-hand side of the comparisons of lines 114 and 118,
  \<^verbatim>\<open>dateutil.parser.parse(e['updated'])\<close>, as a value that can be compared with the
  clock and with the watermark, which are aware: KeyError when the key is missing, the
  parser's error when the string does not parse, TypeError (the comparison's) when the
  string names no time zone, so that the parsed datetime is naive.
\<close>

definition aware_instant :: "env \<Rightarrow> raw_entry \<Rightarrow> pyerror + instant" where
  "aware_instant env e =
     (case r_updated e of
        None \<Rightarrow> Inl KeyError
      | Some s \<Rightarrow>
          (case dateutil_parse env s of
             Inl err \<Rightarrow> Inl err
           | Inr t \<Rightarrow> if tzinfo_missing env s then Inl TypeError else Inr t))"

definition not_after :: "env \<Rightarrow> instant \<Rightarrow> raw_entry \<Rightarrow> pyerror + bool" where
  "not_after env now e =
     (case aware_instant env e of Inl err \<Rightarrow> Inl err | Inr t \<Rightarrow> Inr (t \<le> now))"

definition newer_than :: "env \<Rightarrow> instant \<Rightarrow> raw_entry \<Rightarrow> pyerror + bool" where
  "newer_than env last_update e =
     (case aware_instant env e of Inl err \<Rightarrow> Inl err | Inr t \<Rightarrow> Inr (t > last_update))"

text \<open>
  \<^verbatim>\<open>entries.sort(key=lambda e: e.updated_parsed)\<close>. The sort is stable. A key that
  is \<^verbatim>\<open>None\<close> cannot be compared (TypeError), and every key is compared as soon as
  there are two entries.
\<close>

definition sort_key_of :: "raw_entry \<Rightarrow> int" where
  "sort_key_of e = (case r_updated_parsed e of None \<Rightarrow> 0 | Some t \<Rightarrow> t)"

definition sort_entries :: "raw_entry list \<Rightarrow> pyerror + raw_entry list" where
  "sort_entries es =
     (if length es \<ge> 2 \<and> (\<exists>e \<in> set es. r_updated_parsed e = None)
      then Inl TypeError
      else Inr (sort_key sort_key_of es))"

text \<open>
  \<^verbatim>\<open>
  def get_feed(feed_url, last_update):
      feed = feedparser.parse(feed_url)
      now = datetime.now(timezone.utc)
      entries = [e for e in feed.entries
                 if dateutil.parser.parse(e['updated']) <= now]
      if last_update:
          entries = [e for e in entries
                     if dateutil.parser.parse(e['updated']) > last_update]
      entries.sort(key=lambda e: e.updated_parsed)
      for entry in entries:
          yield get_entry(entry)
  \<close>
  \<open>last_update\<close> is \<open>None\<close> for a value that Python takes as false; a datetime never
  is. \<open>tr\<close> is the trace before the call. \<open>get_feed_entries\<close> is the list the
  generator walks, \<open>get_feed\<close> what it yields: an element \<open>Inl err\<close> is a
  \<^verbatim>\<open>get_entry\<close> that raised, at which the iteration ends.
\<close>

definition get_feed_entries ::
  "env \<Rightarrow> event list \<Rightarrow> string \<Rightarrow> instant option \<Rightarrow> pyerror + raw_entry list" where
  "get_feed_entries env tr feed_url last_update =
     (case feedparser_parse env tr feed_url of
        Inl err \<Rightarrow> Inl err
      | Inr feed_entries \<Rightarrow>
          let now = datetime_now env (tr @ [FeedparserParse feed_url]) in
          (case select (not_after env now) feed_entries of
             Inl err \<Rightarrow> Inl err
           | Inr entries \<Rightarrow>
               (case (case last_update of
                        None \<Rightarrow> Inr entries
                      | Some lu \<Rightarrow> select (newer_than env lu) entries) of
                  Inl err \<Rightarrow> Inl err
                | Inr entries' \<Rightarrow> sort_entries entries')))"

definition get_feed ::
  "env \<Rightarrow> event list \<Rightarrow> string \<Rightarrow> instant option \<Rightarrow> pyerror + (pyerror + entry) list" where
  "get_feed env tr feed_url last_update =
     (case get_feed_entries env tr feed_url last_update of
        Inl err \<Rightarrow> Inl err
      | Inr entries \<Rightarrow> Inr (map (get_entry env) entries))"

subsection \<open>Loading and saving the state: \<^verbatim>\<open>read_state\<close>, \<^verbatim>\<open>save_state\<close>\<close>

text \<open>
  \<^verbatim>\<open>{k: dateutil.parser.parse(v) for k, v in st["updated"].items()}\<close>: the first
  string that does not parse raises.
\<close>

fun parse_items :: "env \<Rightarrow> (string \<times> string) list \<Rightarrow> pyerror + (string \<times> instant) list" where
  "parse_items env [] = Inr []"
| "parse_items env ((k, v) # kvs) =
     (case dateutil_parse env v of
        Inl err \<Rightarrow> Inl err
      | Inr t \<Rightarrow>
          (case parse_items env kvs of
             Inl err \<Rightarrow> Inl err
           | Inr items \<Rightarrow> Inr ((k, t) # items)))"

text \<open>\<^verbatim>\<open>d.update(other)\<close> for a dictionary \<open>other\<close>, given by its items.\<close>

fun update_items :: "('k \<times> 'v) list \<Rightarrow> ('k \<times> 'v) list \<Rightarrow> ('k \<times> 'v) list" where
  "update_items d [] = d"
| "update_items d ((k, v) # kvs) = update_items (dict_set k v d) kvs"

text \<open>
  \<^verbatim>\<open>d.update(other)\<close> for a list \<open>other\<close>: every element has to be a sequence of
  two items, a key and a value. A string of two characters and a list of two strings
  are; a string or list of another length raises ValueError; \<^verbatim>\<open>None\<close> and a
  datetime are no sequences and a dictionary is no key (TypeError).
\<close>

fun pair_of :: "pyval \<Rightarrow> pyerror + string \<times> slot" where
  "pair_of (PStr [a, b]) = Inr ([a], SStr [b])"
| "pair_of (PStr s) = Inl ValueError"
| "pair_of (PStrs [a, b]) = Inr (a, SStr b)"
| "pair_of (PStrs l) = Inl ValueError"
| "pair_of (PLinks l [l']) = Inl TypeError"
| "pair_of (PLinks l ls) = Inl ValueError"
| "pair_of PNone = Inl TypeError"
| "pair_of (PDatetime t) = Inl TypeError"

fun update_pairs :: "(string \<times> slot) list \<Rightarrow> pyval list \<Rightarrow> pyerror + (string \<times> slot) list" where
  "update_pairs d [] = Inr d"
| "update_pairs d (x # xs) =
     (case pair_of x of
        Inl err \<Rightarrow> Inl err
      | Inr (k, v) \<Rightarrow> update_pairs (dict_set k v d) xs)"

text \<open>
  \<^verbatim>\<open>state["dupecheck"].update(st["dupecheck"])\<close>. The elements of a string are its
  characters, strings of length one.
\<close>

fun update_from :: "(string \<times> slot) list \<Rightarrow> top \<Rightarrow> pyerror + (string \<times> slot) list" where
  "update_from d (TDict items) = Inr (update_items d items)"
| "update_from d (TSlot (SList xs)) = update_pairs d xs"
| "update_from d (TSlot (SStr s)) = (if s = [] then Inr d else Inl ValueError)"

text \<open>
  \<^verbatim>\<open>
  def read_state(state_file):
      state = {
          "updated": defaultdict(lambda: datetime(MINYEAR, 1, 1, 0, 0, 0, 0, timezone.utc)),
          "dupecheck": defaultdict(list),
      }
      try:
          with open(state_file) as fh:
              st = json.load(fh)
              if "updated" in st:
                  st["updated"] = {k: dateutil.parser.parse(v) for k, v in st["updated"].items()}
                  state["updated"].update(st["updated"])
              if "dupecheck" in st:
                  state["dupecheck"].update(st["dupecheck"])
      except FileNotFoundError:
          pass
      return state
  \<close>
\<close>

definition read_state :: "env \<Rightarrow> file_content \<Rightarrow> pyerror + state" where
  "read_state env state_file =
     (case state_file of
        Absent \<Rightarrow> Inr \<lparr> updated = [], dupecheck = TDict [] \<rparr>
      | Corrupt \<Rightarrow> Inl JSONDecodeError
      | Doc st \<Rightarrow>
          (case (case doc_updated st of
                   None \<Rightarrow> Inr []
                 | Some kvs \<Rightarrow>
                     (case parse_items env kvs of
                        Inl err \<Rightarrow> Inl err
                      | Inr items \<Rightarrow> Inr (update_items [] (update_items [] items)))) of
             Inl err \<Rightarrow> Inl err
           | Inr upd \<Rightarrow>
               (case (case doc_dupecheck st of
                        None \<Rightarrow> Inr []
                      | Some t \<Rightarrow> update_from [] t) of
                  Inl err \<Rightarrow> Inl err
                | Inr dup \<Rightarrow> Inr \<lparr> updated = upd, dupecheck = TDict dup \<rparr>)))"

text \<open>
  \<^verbatim>\<open>
  def save_state(state, state_file):
      copy = dict(state)
      copy["updated"] = {k: v.isoformat() for k, v in state["updated"].items()}
      with open(state_file, 'w') as fh:
          json.dump(copy, fh, indent=2)
  \<close>
  \<^verbatim>\<open>json.dump\<close> writes as it goes and raises TypeError at a datetime, which JSON
  cannot hold. The result is the exception, if any, and what the file holds afterwards.
\<close>

fun json_value :: "pyval \<Rightarrow> bool" where
  "json_value (PDatetime t) = False"
| "json_value v = True"

fun json_slot :: "slot \<Rightarrow> bool" where
  "json_slot (SList xs) = list_all json_value xs"
| "json_slot (SStr s) = True"

fun json_top :: "top \<Rightarrow> bool" where
  "json_top (TDict items) = list_all (\<lambda>kv. json_slot (snd kv)) items"
| "json_top (TSlot s) = json_slot s"

definition save_state :: "env \<Rightarrow> state \<Rightarrow> pyerror option \<times> file_content" where
  "save_state env state =
     (if json_top (dupecheck state)
      then (None, Doc \<lparr> doc_updated = Some (map (\<lambda>kv. (fst kv, isoformat env (snd kv))) (updated state)),
                         doc_dupecheck = Some (dupecheck state) \<rparr>)
      else (Some TypeError, Corrupt))"

subsection \<open>The pipeline: \<^verbatim>\<open>main\<close>\<close>

text \<open>
  The variables of the loop over the entries of one feed (lines 67-101):
  \<^verbatim>\<open>newest_post\<close>, \<^verbatim>\<open>dupes\<close> and the trace so far. \<^verbatim>\<open>dupes\<close> is the
  very object stored in \<^verbatim>\<open>state['dupecheck'][url]\<close>, so what \<^verbatim>\<open>update_dupes\<close>
  does to it is done to the state at once.
\<close>

record loop =
  lp_newest_post :: instant
  lp_dupes :: slot
  lp_trace :: "event list"

text \<open>
  \<^verbatim>\<open>value in dupes\<close>: membership in a list; in a string, the test for a substring,
  which takes a string on the left (TypeError otherwise).
\<close>

definition is_substring :: "string \<Rightarrow> string \<Rightarrow> bool" where
  "is_substring t s = list_ex (\<lambda>i. take (length t) (drop i s) = t) [0..<Suc (length s)]"

fun dupes_contains :: "slot \<Rightarrow> pyval \<Rightarrow> pyerror + bool" where
  "dupes_contains (SList xs) v = Inr (v \<in> set xs)"
| "dupes_contains (SStr s) (PStr t) = Inr (is_substring t s)"
| "dupes_contains (SStr s) v = Inl TypeError"

text \<open>
  Lines 87-90: each image is fetched and uploaded in turn; a response without a
  \<^verbatim>\<open>Content-Type\<close> header raises KeyError before the upload is called.
\<close>

fun upload_images ::
  "env \<Rightarrow> string list \<Rightarrow> event list \<times> nat list \<Rightarrow> pyerror option \<times> event list \<times> nat list" where
  "upload_images env [] (tr, image_medias) = (None, tr, image_medias)"
| "upload_images env (img # images) (tr, image_medias) =
     (case requests_get env tr img of
        Inl err \<Rightarrow> (Some err, tr @ [RequestsGet img], image_medias)
      | Inr image_response \<Rightarrow>
          (case content_type image_response of
             None \<Rightarrow> (Some KeyError, tr @ [RequestsGet img], image_medias)
           | Some mime_type \<Rightarrow>
               (case media_post env (tr @ [RequestsGet img]) (content image_response) mime_type of
                  Inl err \<Rightarrow>
                    (Some err,
                     tr @ [RequestsGet img, MediaPost (content image_response) mime_type],
                     image_medias)
                | Inr media \<Rightarrow>
                    upload_images env images
                      (tr @ [RequestsGet img, MediaPost (content image_response) mime_type],
                       image_medias @ [media]))))"

definition images_of :: "entry \<Rightarrow> string list" where
  "images_of entry = (case e_images entry of None \<Rightarrow> [] | Some urls \<Rightarrow> urls)"

text \<open>
  Lines 85-101, reached in a run that is not a dry run: the images, the post, the pause.
  \<^verbatim>\<open>
            image_medias = []
            if feed.get('include_images', False) and entry['images']:
                for image in entry['images'][:4]:
                    image_response = requests.get(image)
                    image_medias.append(masto.media_post(...))
            if not args.dry_run:
                masto.status_post(entry_text, media_ids=image_medias)
            if args.delay:
                delay = random.randrange(10,30)
                print("Delaying..." + str(delay) + " seconds...")
                time.sleep(delay)
  \<close>
\<close>

definition publish ::
  "env \<Rightarrow> args \<Rightarrow> feed \<Rightarrow> entry \<Rightarrow> string \<Rightarrow> loop \<Rightarrow> pyerror option \<times> loop" where
  "publish env args feed entry entry_text lp =
     (case (if f_include_images feed \<and> images_of entry \<noteq> []
            then upload_images env (take 4 (images_of entry)) (lp_trace lp, [])
            else (None, lp_trace lp, [])) of
        (Some err, tr, image_medias) \<Rightarrow> (Some err, lp\<lparr>lp_trace := tr\<rparr>)
      | (None, tr, image_medias) \<Rightarrow>
          (case status_post env tr entry_text image_medias of
             Some err \<Rightarrow>
               (Some err, lp\<lparr>lp_trace := tr @ [StatusPost entry_text image_medias]\<rparr>)
           | None \<Rightarrow>
               (None,
                lp\<lparr>lp_trace :=
                     tr @ [StatusPost entry_text image_medias] @
                     (if delay args
                      then (let d = randrange
                                      (random_draw env (tr @ [StatusPost entry_text image_medias]))
                                      10 30
                            in [PrintDelaying d, Sleep d])
                      else [])\<rparr>)))"

text \<open>
  Line 69, \<^verbatim>\<open>feed['template'].format(**entry)[:499]\<close>: the slice keeps the first
  499 characters, or all of them when there are fewer.
\<close>

definition render :: "env \<Rightarrow> feed \<Rightarrow> entry \<Rightarrow> pyerror + string" where
  "render env feed entry =
     (case str_format env (f_template feed) entry of
        Inl err \<Rightarrow> Inl err
      | Inr text \<Rightarrow> Inr (take 499 text))"

text \<open>
  Lines 78-83, the dedupe check. The result is the exception raised, or \<open>None\<close> for
  a duplicate (the \<^verbatim>\<open>continue\<close> of line 82), or the ledger with which the turn goes
  on: the ledger as it was when no dedupe field is set, and the ledger with the value
  recorded otherwise.
\<close>

definition dedupe_check :: "args \<Rightarrow> entry \<Rightarrow> slot \<Rightarrow> pyerror + slot option" where
  "dedupe_check args entry dupes =
     (if dedupe args \<noteq> []
      then
        (case entry_get entry (dedupe args) of
           Inl err \<Rightarrow> Inl err
         | Inr v \<Rightarrow>
             (case dupes_contains dupes v of
                Inl err \<Rightarrow> Inl err
              | Inr True \<Rightarrow> Inr None
              | Inr False \<Rightarrow>
                  (case update_dupes dupes v of
                     Inl err \<Rightarrow> Inl err
                   | Inr dupes' \<Rightarrow> Inr (Some dupes'))))
      else Inr (Some dupes))"

text \<open>
  One turn of the loop of lines 67-101, on what the generator yields.
  \<^verbatim>\<open>
        for entry in get_feed(feed['url'], newest_post):
            newest_post = max(newest_post, entry['updated'])
            entry_text = feed['template'].format(**entry)[:499]
            if args.dry_run:
                print(entry_text)
                continue
            if args.verbose:
                print(entry_text)
            if dedupe_field:
                if entry[dedupe_field] in dupes:
                    if args.verbose:
                        print(f"Skipping dupe post: ...")
                    continue
                update_dupes(dupes, entry[dedupe_field])
  \<close>
\<close>

definition process_entry ::
  "env \<Rightarrow> args \<Rightarrow> feed \<Rightarrow> pyerror + entry \<Rightarrow> loop \<Rightarrow> pyerror option \<times> loop" where
  "process_entry env args feed item lp =
     (case item of
        Inl err \<Rightarrow> (Some err, lp)
      | Inr entry \<Rightarrow>
          let lp1 = lp\<lparr>lp_newest_post := max (lp_newest_post lp) (e_updated entry)\<rparr> in
          (case render env feed entry of
             Inl err \<Rightarrow> (Some err, lp1)
           | Inr entry_text \<Rightarrow>
               if dry_run args
               then (None, lp1\<lparr>lp_trace := lp_trace lp1 @ [Print entry_text]\<rparr>)
               else
                 let lp2 = lp1\<lparr>lp_trace := lp_trace lp1 @
                                 (if verbose args then [Print entry_text] else [])\<rparr> in
                 (case dedupe_check args entry (lp_dupes lp2) of
                    Inl err \<Rightarrow> (Some err, lp2)
                  | Inr None \<Rightarrow>
                      (None,
                       lp2\<lparr>lp_trace := lp_trace lp2 @
                             (if verbose args
                              then [PrintSkipping entry_text (dedupe args)]
                              else [])\<rparr>)
                  | Inr (Some dupes') \<Rightarrow>
                      publish env args feed entry entry_text (lp2\<lparr>lp_dupes := dupes'\<rparr>))))"

fun entries_loop ::
  "env \<Rightarrow> args \<Rightarrow> feed \<Rightarrow> (pyerror + entry) list \<Rightarrow> loop \<Rightarrow> pyerror option \<times> loop" where
  "entries_loop env args feed [] lp = (None, lp)"
| "entries_loop env args feed (item # items) lp =
     (case process_entry env args feed item lp of
        (Some err, lp') \<Rightarrow> (Some err, lp')
      | (None, lp') \<Rightarrow> entries_loop env args feed items lp')"

text \<open>
  What a run has at hand: the \<^verbatim>\<open>state\<close> dictionary in memory, the state file, the
  trace.
\<close>

record run =
  run_state :: state
  run_file :: file_content
  run_trace :: "event list"

text \<open>
  One turn of the loop over the feeds (lines 62-106).
  \<^verbatim>\<open>
    for feed in config['feeds']:
        newest_post = state['updated'][feed["url"]]
        dupes = state['dupecheck'][feed["url"]]
        if args.verbose:
            print(f"fetching {feed['url']} entries since {newest_post}")
        for entry in get_feed(feed['url'], newest_post):
            ...
        if not args.dry_run:
            state['updated'][feed["url"]] = newest_post
            state['dupecheck'] = dupes
            save_state(state, state_file)
  \<close>
  Reading a \<^verbatim>\<open>defaultdict\<close> inserts the default for a missing key. Once line 105
  has stored a list or a string in \<^verbatim>\<open>state['dupecheck']\<close>, line 64 indexes that
  object with a string: TypeError. The body of the generator \<^verbatim>\<open>get_feed\<close> starts
  to run when the loop asks for the first entry, after the print of line 66.
\<close>

definition feed_step :: "env \<Rightarrow> args \<Rightarrow> feed \<Rightarrow> run \<Rightarrow> pyerror option \<times> run" where
  "feed_step env args feed r =
     (let (newest_post, upd) =
            defaultdict_get datetime_min (updated (run_state r)) (f_url feed);
          state1 = (run_state r)\<lparr>updated := upd\<rparr>
      in case dupecheck state1 of
           TSlot s \<Rightarrow> (Some TypeError, r\<lparr>run_state := state1\<rparr>)
         | TDict d \<Rightarrow>
             let (dupes, d') = defaultdict_get (SList []) d (f_url feed);
                 tr = run_trace r @
                        (if verbose args then [PrintFetching (f_url feed) newest_post] else [])
             in (case get_feed env tr (f_url feed) (Some newest_post) of
                   Inl err \<Rightarrow>
                     (Some err,
                      r\<lparr>run_state := state1\<lparr>dupecheck := TDict d'\<rparr>,
                        run_trace := tr @ [FeedparserParse (f_url feed)]\<rparr>)
                 | Inr items \<Rightarrow>
                     (case entries_loop env args feed items
                             \<lparr> lp_newest_post = newest_post, lp_dupes = dupes,
                               lp_trace = tr @ [FeedparserParse (f_url feed)] \<rparr> of
                        (Some err, lp) \<Rightarrow>
                          (Some err,
                           r\<lparr>run_state :=
                                state1\<lparr>dupecheck := TDict (dict_set (f_url feed) (lp_dupes lp) d')\<rparr>,
                             run_trace := lp_trace lp\<rparr>)
                      | (None, lp) \<Rightarrow>
                          if dry_run args
                          then
                            (None,
                             r\<lparr>run_state :=
                                  state1\<lparr>dupecheck := TDict (dict_set (f_url feed) (lp_dupes lp) d')\<rparr>,
                               run_trace := lp_trace lp\<rparr>)
                          else
                            let state3 = \<lparr> updated = dict_set (f_url feed) (lp_newest_post lp) upd,
                                           dupecheck = TSlot (lp_dupes lp) \<rparr>;
                                (err, file') = save_state env state3
                            in (err,
                                \<lparr> run_state = state3, run_file = file',
                                  run_trace = lp_trace lp @ [SaveState file'] \<rparr>))))"

fun main_loop :: "env \<Rightarrow> args \<Rightarrow> feed list \<Rightarrow> run \<Rightarrow> pyerror option \<times> run" where
  "main_loop env args [] r = (None, r)"
| "main_loop env args (feed # feeds) r =
     (case feed_step env args feed r of
        (Some err, r') \<Rightarrow> (Some err, r')
      | (None, r') \<Rightarrow> main_loop env args feeds r')"

text \<open>
  \<^verbatim>\<open>
  def yes_no(question):
      res = input(question + ' [y/n] ')
      return res.lower() in "y1"
  \<close>
  The answer counts as yes when, in lower case, it is a substring of \<^verbatim>\<open>"y1"\<close>;
  the empty answer is one.
\<close>

definition yes_no :: "env \<Rightarrow> event list \<Rightarrow> string \<Rightarrow> bool \<times> event list" where
  "yes_no env tr question =
     (let prompt = question @ '' [y/n] '';
          res = user_input env tr prompt
      in (is_substring (str_lower env res) ''y1'', tr @ [Input prompt]))"

text \<open>
  The first-run dialogue \<^verbatim>\<open>setup\<close> (lines 224-268; \<open>setup_fn\<close> here), which
  \<^verbatim>\<open>main\<close> calls when there is no configuration file. Lines 227-244 get the credentials of the client: typed
  in, or made by \<^verbatim>\<open>Mastodon.create_app\<close> and \<^verbatim>\<open>log_in\<close>, which may raise. The
  credentials themselves play no part in what follows and are not kept.
\<close>

definition credentials ::
  "env \<Rightarrow> string \<Rightarrow> bool \<Rightarrow> event list \<Rightarrow> pyerror option \<times> event list" where
  "credentials env url have_app tr =
     (if have_app
      then (None, tr @ [Input (''What is your app'' @ [CHR 0x27] @ ''s client id: ''),
                        Input ''What is your client secret: '',
                        Input ''access_token: ''])
      else
        let q_name = ''app name (e.g. feediverse): '';
            name = user_input env (tr @ [PrintNeedToken]) q_name;
            tr1 = tr @ [PrintNeedToken, Input q_name]
        in (case create_app env tr1 url name of
              Some err \<Rightarrow> (Some err, tr1 @ [CreateApp url name])
            | None \<Rightarrow>
                let q_user = ''mastodon username (email): '';
                    q_pass = ''mastodon password (not stored): '';
                    username = user_input env (tr1 @ [CreateApp url name]) q_user;
                    password = user_input env (tr1 @ [CreateApp url name, Input q_user]) q_pass;
                    tr2 = tr1 @ [CreateApp url name, Input q_user, Input q_pass]
                in (log_in env tr2 username password, tr2 @ [LogIn username])))"

text \<open>
  \<^verbatim>\<open>
      feed_url = input('RSS/Atom feed URL to watch: ')
      old_posts = yes_no('Shall already existing entries be tooted, too?')
      include_images = yes_no('Do you want to attach images (the first 4) found in entries to your toot?')
      config = { ...
          'feeds': [
              {'url': feed_url, 'template': '{title} {url}', 'include_images': include_images}
          ]
      }
      state = read_state(state_file)
      if not old_posts:
          state['updated'][feed_url] = datetime.now(tz=timezone.utc).isoformat()
      save_config(config, config_file)
      save_state(state, state_file)
      print("") ...
  \<close>
  Nothing here looks at \<^verbatim>\<open>--dry-run\<close>. Line 261 stores a string where
  \<^verbatim>\<open>save_state\<close> expects a datetime: when the old entries are not to be tooted,
  line 203 of \<^verbatim>\<open>save_state\<close> calls \<^verbatim>\<open>isoformat\<close> on that string and raises
  AttributeError before the state file is opened, the configuration file being written
  already. The result is the exception, or the feeds of the configuration that has been
  written; then the state file and the trace.
\<close>

definition setup_fn ::
  "env \<Rightarrow> file_content \<Rightarrow> event list \<Rightarrow> (pyerror + feed list) \<times> file_content \<times> event list" where
  "setup_fn env state_file tr =
     (let q_url = ''What is your Mastodon Instance URL? '';
          url = user_input env tr q_url;
          (have_app, tr1) =
             yes_no env (tr @ [Input q_url]) ''Do you have your app credentials already?''
      in case credentials env url have_app tr1 of
           (Some err, tr2) \<Rightarrow> (Inl err, state_file, tr2)
         | (None, tr2) \<Rightarrow>
             let q_feed = ''RSS/Atom feed URL to watch: '';
                 feed_url = user_input env tr2 q_feed;
                 (old_posts, tr3) =
                    yes_no env (tr2 @ [Input q_feed])
                      ''Shall already existing entries be tooted, too?'';
                 (include_images, tr4) =
                    yes_no env tr3
                      ''Do you want to attach images (the first 4) found in entries to your toot?'';
                 feeds = [\<lparr> f_url = feed_url, f_template = ''{title} {url}'',
                            f_include_images = include_images \<rparr>]
             in (case read_state env state_file of
                   Inl err \<Rightarrow> (Inl err, state_file, tr4)
                 | Inr state \<Rightarrow>
                     if \<not> old_posts
                     then (Inl AttributeError, state_file, tr4 @ [SaveConfig feeds])
                     else
                       (case save_state env state of
                          (Some err, file') \<Rightarrow>
                            (Inl err, file', tr4 @ [SaveConfig feeds, SaveState file'])
                        | (None, file') \<Rightarrow>
                            (Inr feeds, file',
                             tr4 @ [SaveConfig feeds, SaveState file', PrintSaved]))))"

text \<open>
  \<^verbatim>\<open>main\<close> from line 45 on, for the parsed arguments.
  \<^verbatim>\<open>
      if args.verbose:
          print("using config file", config_file)
          print("using state file", state_file)
      if not os.path.isfile(config_file):
          setup(config_file, state_file)
      config = read_config(config_file)
      state = read_state(state_file)
      masto = Mastodon(...)
      for feed in config['feeds']:
          ...
  \<close>
  The configuration file is given by the feeds it lists, \<open>None\<close> when there is no
  such file; after \<^verbatim>\<open>setup\<close> it is the file that \<^verbatim>\<open>setup\<close> wrote. The client
  of line 55 is built from the credentials of that file; the two methods of it that the
  loop calls are the parameters \<open>media_post\<close> and \<open>status_post\<close>. The state is
  read, then the feeds are worked through in order. The result is the exception that
  ended the run, if any, and what the run had at hand then.
\<close>

definition main ::
  "env \<Rightarrow> args \<Rightarrow> feed list option \<Rightarrow> file_content \<Rightarrow> pyerror option \<times> run" where
  "main env args config_file state_file =
     (let tr = (if verbose args then [PrintUsingFiles] else []);
          (config, state_file', tr') =
             (case config_file of
                Some feeds \<Rightarrow> (Inr feeds, state_file, tr)
              | None \<Rightarrow> setup_fn env state_file tr)
      in case config of
           Inl err \<Rightarrow>
             (Some err,
              \<lparr> run_state = \<lparr> updated = [], dupecheck = TDict [] \<rparr>,
                run_file = state_file', run_trace = tr' \<rparr>)
         | Inr feeds \<Rightarrow>
             (case read_state env state_file' of
                Inl err \<Rightarrow>
                  (Some err,
                   \<lparr> run_state = \<lparr> updated = [], dupecheck = TDict [] \<rparr>,
                     run_file = state_file', run_trace = tr' \<rparr>)
              | Inr state \<Rightarrow>
                  main_loop env args feeds
                    \<lparr> run_state = state, run_file = state_file', run_trace = tr' \<rparr>))"

subsection \<open>Reading the state\<close>

text \<open>
  The values of \<^verbatim>\<open>state['updated'][url]\<close> and \<^verbatim>\<open>state['dupecheck'][url]\<close>, as
  lines 63 and 64 read them: the stored value, or the default for a feed not seen so far.
  A list or string in the place of the dictionary cannot be indexed by a URL.
\<close>

definition watermark :: "state \<Rightarrow> string \<Rightarrow> instant" where
  "watermark st url = fst (defaultdict_get datetime_min (updated st) url)"

definition ledger :: "state \<Rightarrow> string \<Rightarrow> pyerror + slot" where
  "ledger st url =
     (case dupecheck st of
        TDict d \<Rightarrow> Inr (fst (defaultdict_get (SList []) d url))
      | TSlot s \<Rightarrow> Inl TypeError)"

subsection \<open>Kinds of events\<close>

text \<open>
  The calls that fetch or upload an image, the call that publishes a post, the pause,
  the write of the state file; and the events of a dry run that has its configuration
  file, which only fetches feeds and prints.
\<close>

fun is_image_call :: "event \<Rightarrow> bool" where
  "is_image_call (RequestsGet url) = True"
| "is_image_call (MediaPost data mime_type) = True"
| "is_image_call ev = False"

fun is_status_post :: "event \<Rightarrow> bool" where
  "is_status_post (StatusPost entry_text image_medias) = True"
| "is_status_post ev = False"

fun is_sleep :: "event \<Rightarrow> bool" where
  "is_sleep (Sleep d) = True"
| "is_sleep ev = False"

fun is_save :: "event \<Rightarrow> bool" where
  "is_save (SaveState f) = True"
| "is_save ev = False"

fun is_fetch_or_print :: "event \<Rightarrow> bool" where
  "is_fetch_or_print (PrintFetching url t) = True"
| "is_fetch_or_print (FeedparserParse url) = True"
| "is_fetch_or_print (Print entry_text) = True"
| "is_fetch_or_print PrintUsingFiles = True"
| "is_fetch_or_print ev = False"

subsection \<open>Relations between two moments of a run\<close>

text \<open>
  \<open>dry_frame r r'\<close>: from \<open>r\<close> to \<open>r'\<close> the state file has not changed, every
  feed has the watermark and the ledger it had, and the program has only fetched feeds and
  printed.
\<close>

definition dry_frame :: "run \<Rightarrow> run \<Rightarrow> bool" where
  "dry_frame r r' \<longleftrightarrow>
     run_file r' = run_file r
     \<and> (\<exists>d'. dupecheck (run_state r') = TDict d')
     \<and> (\<forall>u. watermark (run_state r') u = watermark (run_state r) u)
     \<and> (\<forall>u. ledger (run_state r') u = ledger (run_state r) u)
     \<and> (\<exists>evs. run_trace r' = run_trace r @ evs \<and> (\<forall>ev \<in> set evs. is_fetch_or_print ev))"

text \<open>
  \<open>file_kept env r0 r\<close>: since \<open>r0\<close> no watermark in memory has gone down, and the
  state file is the one of \<open>r0\<close> or has been written by \<^verbatim>\<open>save_state\<close> from a state
  whose dates are still in memory and are not below those of \<open>r0\<close>.
\<close>

definition file_kept :: "env \<Rightarrow> run \<Rightarrow> run \<Rightarrow> bool" where
  "file_kept env r0 r \<longleftrightarrow>
     distinct (map fst (updated (run_state r)))
     \<and> (\<forall>u. watermark (run_state r0) u \<le> watermark (run_state r) u)
     \<and> (run_file r = run_file r0
        \<or> (\<exists>S. run_file r = snd (save_state env S)
               \<and> distinct (map fst (updated S))
               \<and> set (updated S) \<subseteq> set (updated (run_state r))
               \<and> (\<forall>u. watermark (run_state r0) u \<le> watermark S u)))"

subsection \<open>A small world for the examples\<close>

text \<open>
  The examples below run the program in this world. Its dates are the ones that
  \<open>demo_dates\<close> lists, each with its instant; \<^verbatim>\<open>str.format\<close> knows the template
  of the configuration that \<^verbatim>\<open>setup\<close> writes; the texts of its feeds hold no markup,
  so \<^verbatim>\<open>cleanup\<close> leaves them as they are and there are no images; every call to
  the posting service succeeds; the clock reads 2024-06-01T00:00:00 UTC. The user
  answers the dialogue of \<^verbatim>\<open>setup\<close> with the address of an instance, with the
  address of feed \<open>a\<close>, and with \<^verbatim>\<open>y\<close> to everything else.
\<close>

definition demo_dates :: "(string \<times> instant) list" where
  "demo_dates =
     [(''0001-01-01T00:00:00+00:00'', 0),
      (''2024-01-01T00:00:00+00:00'', 63839664000000000),
      (''2024-01-01T00:00:00.100000+00:00'', 63839664000100000),
      (''2024-01-01T00:00:00.900000+00:00'', 63839664000900000),
      (''2024-01-02T00:00:00+00:00'', 63839750400000000),
      (''2024-05-31T23:59:55+00:00'', 63852796795000000),
      (''2024-01-01T00:00:00'', 63839664000000000)]"

definition demo_parse :: "string \<Rightarrow> pyerror + instant" where
  "demo_parse s = (case map_of demo_dates s of None \<Rightarrow> Inl ParserError | Some t \<Rightarrow> Inr t)"

definition demo_isoformat :: "instant \<Rightarrow> string" where
  "demo_isoformat t =
     (case map_of (map (\<lambda>st. (snd st, fst st)) demo_dates) t of None \<Rightarrow> [] | Some s \<Rightarrow> s)"

definition demo_format :: "string \<Rightarrow> entry \<Rightarrow> pyerror + string" where
  "demo_format template e =
     (if template = ''{title} {url}'' then Inr (e_title e @ '' '' @ e_url e)
      else Inl KeyError)"

definition demo_entry :: "string \<Rightarrow> string \<Rightarrow> string \<Rightarrow> string \<Rightarrow> int \<Rightarrow> raw_entry" where
  "demo_entry ident link title upd secs =
     \<lparr> r_tags = None, r_summary = None, r_content = None, r_comments = None,
       r_id = Some ident, r_link = Some link, r_links = Some [], r_title = Some title,
       r_updated = Some upd, r_updated_parsed = Some secs \<rparr>"

definition demo_a1 :: raw_entry where
  "demo_a1 =
     demo_entry ''a1'' ''https://a.example/1'' ''First'' ''2024-01-01T00:00:00+00:00'' 63839664000"

definition demo_a2 :: raw_entry where
  "demo_a2 =
     demo_entry ''a2'' ''https://a.example/2'' ''Second'' ''2024-01-02T00:00:00+00:00'' 63839750400"

text \<open>
  The feeds of this world. Feed \<open>a\<close> has two entries a day apart, the newer first. Feed \<open>b\<close> has an
  entry without a date. The two entries of feed \<open>c\<close> fall into the same second, the
  later one first. The two entries of feed \<open>d\<close> have the same link. The entry of feed
  \<open>e\<close> is dated five seconds before the clock's reading. The date of the entry of feed
  \<open>n\<close> names no time zone. Any other address does not answer: \<^verbatim>\<open>feedparser.parse\<close>
  returns no entries for it.
\<close>

definition demo_feeds :: "(string \<times> raw_entry list) list" where
  "demo_feeds =
     [(''https://a.example/feed'', [demo_a2, demo_a1]),
      (''https://b.example/feed'',
        [(demo_entry ''b1'' ''https://b.example/1'' ''Undated'' [] 0)
           \<lparr> r_updated := None, r_updated_parsed := None \<rparr>]),
      (''https://c.example/feed'',
        [demo_entry ''c1'' ''https://c.example/1'' ''Later'' ''2024-01-01T00:00:00.900000+00:00'' 63839664000,
         demo_entry ''c2'' ''https://c.example/2'' ''Earlier'' ''2024-01-01T00:00:00.100000+00:00'' 63839664000]),
      (''https://d.example/feed'',
        [demo_entry ''d1'' ''https://d.example/same'' ''One'' ''2024-01-01T00:00:00+00:00'' 63839664000,
         demo_entry ''d2'' ''https://d.example/same'' ''Two'' ''2024-01-02T00:00:00+00:00'' 63839750400]),
      (''https://e.example/feed'',
        [demo_entry ''e1'' ''https://e.example/1'' ''Fresh'' ''2024-05-31T23:59:55+00:00'' 63852796795]),
      (''https://n.example/feed'',
        [demo_entry ''n1'' ''https://n.example/1'' ''Zoneless'' ''2024-01-01T00:00:00'' 63839664000])]"

definition demo_env :: env where
  "demo_env =
     \<lparr> dateutil_parse = demo_parse,
       tzinfo_missing = (\<lambda>s. s = ''2024-01-01T00:00:00''),
       isoformat = demo_isoformat,
       str_format = demo_format,
       cleanup = (\<lambda>text. text),
       img_srcs = (\<lambda>html. []),
       str_lower = (\<lambda>s. s),
       feedparser_parse =
         (\<lambda>tr url. case map_of demo_feeds url of None \<Rightarrow> Inr [] | Some es \<Rightarrow> Inr es),
       datetime_now = (\<lambda>tr. 63852796800000000),
       requests_get = (\<lambda>tr url. Inl ExternalError),
       media_post = (\<lambda>tr data mime_type. Inl ExternalError),
       status_post = (\<lambda>tr text medias. None),
       random_draw = (\<lambda>tr. 7),
       user_input =
         (\<lambda>tr prompt.
            if prompt = ''What is your Mastodon Instance URL? '' then ''https://m.example''
            else if prompt = ''RSS/Atom feed URL to watch: '' then ''https://a.example/feed''
            else ''y''),
       create_app = (\<lambda>tr url name. None),
       log_in = (\<lambda>tr username password. None) \<rparr>"

text \<open>The first entry of feed \<open>a\<close>, normalised, and the loop variables before a first entry.\<close>

definition demo_first :: entry where
  "demo_first =
     \<lparr> e_url = ''a1'', e_link = ''https://a.example/1'', e_links = [], e_comments = [],
       e_title = ''First'', e_summary = [], e_content = PStr [], e_hashtags = [],
       e_images = None, e_updated = 63839664000000000 \<rparr>"

definition demo_loop :: loop where
  "demo_loop = \<lparr> lp_newest_post = 0, lp_dupes = SList [], lp_trace = [] \<rparr>"


definition demo_feed :: "string \<Rightarrow> feed" where
  "demo_feed url = \<lparr> f_url = url, f_template = ''{title} {url}'', f_include_images = False \<rparr>"

definition demo_args :: args where
  "demo_args = \<lparr> dry_run = False, verbose = False, delay = False, dedupe = [] \<rparr>"

section \<open>Properties\<close>

subsection \<open>The dedupe ledger is a queue of at most 51 values\<close>

lemma record_all_drop:
  "length xs \<le> 51 \<Longrightarrow>
   record_all (SList xs) vs = Inr (SList (drop (length xs + length vs - 51) (xs @ vs)))"
proof (induction vs arbitrary: xs)
  case Nil
  then show ?case by simp
next
  case (Cons v vs)
  show ?case
  proof (cases "length xs > 50")
    case True
    with Cons.prems have len: "length xs = 51" by simp
    then obtain x xs' where xs: "xs = x # xs'" by (cases xs) auto
    from len xs have "length (xs' @ [v]) \<le> 51" by simp
    from Cons.IH [OF this] len xs show ?thesis by simp
  next
    case False
    then have "length (xs @ [v]) \<le> 51" by simp
    from Cons.IH [OF this] False show ?thesis by simp
  qed
qed

text \<open>
  C1, as the code has it. \<^verbatim>\<open>update_dupes\<close> tests the length before it appends: it
  removes the oldest value (index 0) when the list already holds more than 50 values, and
  then appends the new one. A ledger of at most 51 values (the empty ledger of an unseen
  feed in particular) therefore never grows beyond 51 values, whatever sequence of values
  is recorded, and what it holds is the last 51 of the values it held and was given, in
  insertion order. From the empty ledger the first value leaves when the 52nd is
  recorded.
\<close>

theorem update_dupes_fifo_51:
  assumes "length xs \<le> 51"
  shows "update_dupes (SList xs) v =
           Inr (SList ((if length xs > 50 then tl xs else xs) @ [v]))
       \<and> record_all (SList xs) vs =
           Inr (SList (drop (length xs + length vs - 51) (xs @ vs)))
       \<and> length (drop (length xs + length vs - 51) (xs @ vs)) \<le> 51"
  using assms record_all_drop [OF assms, of vs] by auto

theorem update_dupes_fifo_51_witness:
  "length ([] :: pyval list) \<le> 51
   \<and> record_all (SList []) (map PDatetime [1..52]) = Inr (SList (map PDatetime [2..52]))
   \<and> length (map PDatetime [2..52]) \<le> 51"
proof -
  have h: "length ([] :: pyval list) \<le> 51" by simp
  have e: "drop (length ([] :: pyval list) + length (map PDatetime [1..52]) - 51)
             ([] @ map PDatetime [1..52]) = map PDatetime [2..52]"
    by code_simp
  from update_dupes_fifo_51 [OF h, of PNone "map PDatetime [1..52]"]
  have "record_all (SList []) (map PDatetime [1..52]) =
          Inr (SList (drop (length ([] :: pyval list) + length (map PDatetime [1..52]) - 51)
             ([] @ map PDatetime [1..52])))"
    by (rule conjunct1 [OF conjunct2])
  with e have "record_all (SList []) (map PDatetime [1..52]) =
                 Inr (SList (map PDatetime [2..52]))"
    by (simp only:)
  moreover have "length (map PDatetime [2..52]) \<le> 51" by code_simp
  ultimately show ?thesis using h by blast
qed

text \<open>
  C1 as the specification words it fails: after 51 values have been recorded into an
  empty ledger, the ledger holds all 51 of them, the first one included.
\<close>

theorem update_dupes_keeps_51_counterexample:
  "record_all (SList []) (map PDatetime [1..51]) = Inr (SList (map PDatetime [1..51]))
   \<and> length (map PDatetime [1..51]) > 50
   \<and> PDatetime 1 \<in> set (map PDatetime [1..51])"
  by code_simp

subsection \<open>One entry: the text, the images, the pause\<close>

lemma publish_frame:
  "publish env args feed entry entry_text lp = (err, lp') \<Longrightarrow>
   lp_dupes lp' = lp_dupes lp \<and> lp_newest_post lp' = lp_newest_post lp"
  by (auto simp: publish_def Let_def split: if_splits prod.splits option.splits)

lemma publish_no_images:
  "e_images entry = None \<Longrightarrow>
   publish env args feed entry entry_text lp =
     (case status_post env (lp_trace lp) entry_text [] of
        Some err \<Rightarrow> (Some err, lp\<lparr>lp_trace := lp_trace lp @ [StatusPost entry_text []]\<rparr>)
      | None \<Rightarrow>
          (None, lp\<lparr>lp_trace := lp_trace lp @ [StatusPost entry_text []] @
             (if delay args
              then [PrintDelaying (randrange (random_draw env (lp_trace lp @ [StatusPost entry_text []])) 10 30),
                    Sleep (randrange (random_draw env (lp_trace lp @ [StatusPost entry_text []])) 10 30)]
              else [])\<rparr>))"
  by (simp add: publish_def images_of_def Let_def split: option.splits)

lemma publish_success:
  assumes "publish env args feed entry entry_text lp = (None, lp')"
  shows "\<exists>tr medias. lp' = lp\<lparr>lp_trace := tr @ [StatusPost entry_text medias] @
             (if delay args
              then [PrintDelaying (randrange (random_draw env (tr @ [StatusPost entry_text medias])) 10 30),
                    Sleep (randrange (random_draw env (tr @ [StatusPost entry_text medias])) 10 30)]
              else [])\<rparr>"
  using assms
  by (auto simp: publish_def Let_def split: if_splits prod.splits option.splits)

lemma randrange_bounds: "10 \<le> randrange k 10 30 \<and> randrange k 10 30 < 30"
  by (simp add: randrange_def)


lemma process_entry_live:
  assumes "\<not> dry_run args" and "render env feed entry = Inr entry_text"
  shows "process_entry env args feed (Inr entry) lp =
     (case dedupe_check args entry (lp_dupes lp) of
        Inl err \<Rightarrow>
          (Some err,
           lp\<lparr>lp_newest_post := max (lp_newest_post lp) (e_updated entry),
              lp_trace := lp_trace lp @ (if verbose args then [Print entry_text] else [])\<rparr>)
      | Inr None \<Rightarrow>
          (None,
           lp\<lparr>lp_newest_post := max (lp_newest_post lp) (e_updated entry),
              lp_trace := (lp_trace lp @ (if verbose args then [Print entry_text] else [])) @
                 (if verbose args then [PrintSkipping entry_text (dedupe args)] else [])\<rparr>)
      | Inr (Some dupes') \<Rightarrow>
          publish env args feed entry entry_text
            (lp\<lparr>lp_newest_post := max (lp_newest_post lp) (e_updated entry),
                lp_trace := lp_trace lp @ (if verbose args then [Print entry_text] else []),
                lp_dupes := dupes'\<rparr>))"
  using assms by (simp add: process_entry_def Let_def split: sum.splits option.splits)

lemma process_entry_dry:
  assumes "dry_run args" and "render env feed entry = Inr entry_text"
  shows "process_entry env args feed (Inr entry) lp =
           (None, lp\<lparr>lp_newest_post := max (lp_newest_post lp) (e_updated entry),
                      lp_trace := lp_trace lp @ [Print entry_text]\<rparr>)"
  using assms by (simp add: process_entry_def Let_def)

lemma process_entry_render_fails:
  assumes "render env feed entry = Inl err"
  shows "process_entry env args feed (Inr entry) lp =
           (Some err, lp\<lparr>lp_newest_post := max (lp_newest_post lp) (e_updated entry)\<rparr>)"
  using assms by (simp add: process_entry_def Let_def)

text \<open>
  C5. When \<^verbatim>\<open>str.format\<close> renders the template with the keys of the entry, the
  text of the post is the prefix of at most 499 characters of what it renders: exactly
  499 characters when the rendered text is longer, the rendered text itself when it is
  not. This is the text that a dry run prints and that any other run hands on to be
  published.
\<close>

theorem render_prefix_499:
  assumes "str_format env (f_template feed) entry = Inr text"
  shows "render env feed entry = Inr (take 499 text)
       \<and> length (take 499 text) \<le> 499
       \<and> (length text > 499 \<longrightarrow> length (take 499 text) = 499)
       \<and> (length text \<le> 499 \<longrightarrow> take 499 text = text)
       \<and> (dry_run args \<longrightarrow>
            process_entry env args feed (Inr entry) lp =
              (None, lp\<lparr>lp_newest_post := max (lp_newest_post lp) (e_updated entry),
                         lp_trace := lp_trace lp @ [Print (take 499 text)]\<rparr>))
       \<and> (\<not> dry_run args \<and> dedupe args = [] \<longrightarrow>
            process_entry env args feed (Inr entry) lp =
              publish env args feed entry (take 499 text)
                (lp\<lparr>lp_newest_post := max (lp_newest_post lp) (e_updated entry),
                    lp_trace := lp_trace lp @
                                  (if verbose args then [Print (take 499 text)] else [])\<rparr>))"
proof -
  from assms have r: "render env feed entry = Inr (take 499 text)"
    by (simp add: render_def)
  have d: "dry_run args \<longrightarrow>
            process_entry env args feed (Inr entry) lp =
              (None, lp\<lparr>lp_newest_post := max (lp_newest_post lp) (e_updated entry),
                         lp_trace := lp_trace lp @ [Print (take 499 text)]\<rparr>)"
    using r by (simp add: process_entry_dry)
  have l: "\<not> dry_run args \<and> dedupe args = [] \<longrightarrow>
            process_entry env args feed (Inr entry) lp =
              publish env args feed entry (take 499 text)
                (lp\<lparr>lp_newest_post := max (lp_newest_post lp) (e_updated entry),
                    lp_trace := lp_trace lp @
                                  (if verbose args then [Print (take 499 text)] else [])\<rparr>)"
    using r by (simp add: process_entry_live dedupe_check_def)
  from r d l show ?thesis by simp
qed


theorem render_prefix_499_witness:
  "str_format demo_env (f_template (demo_feed ''https://a.example/feed''))
       (demo_first\<lparr>e_title := replicate 600 CHR ''x''\<rparr>)
     = Inr (replicate 600 CHR ''x'' @ '' a1'')
   \<and> render demo_env (demo_feed ''https://a.example/feed'')
       (demo_first\<lparr>e_title := replicate 600 CHR ''x''\<rparr>)
     = Inr (replicate 499 CHR ''x'')"
proof -
  have h: "str_format demo_env (f_template (demo_feed ''https://a.example/feed''))
             (demo_first\<lparr>e_title := replicate 600 CHR ''x''\<rparr>)
             = Inr (replicate 600 CHR ''x'' @ '' a1'')"
    by (simp add: demo_env_def demo_feed_def demo_format_def demo_first_def)
  from render_prefix_499 [OF h, of demo_args demo_loop]
  have "render demo_env (demo_feed ''https://a.example/feed'')
          (demo_first\<lparr>e_title := replicate 600 CHR ''x''\<rparr>)
          = Inr (take 499 (replicate 600 CHR ''x'' @ '' a1''))"
    by (rule conjunct1)
  with h show ?thesis by simp
qed

lemma process_entry_no_images:
  assumes "e_images entry = None"
  shows "filter is_image_call (lp_trace (snd (process_entry env args feed (Inr entry) lp)))
           = filter is_image_call (lp_trace lp)"
proof (cases "render env feed entry")
  case (Inl err)
  then show ?thesis by (simp add: process_entry_render_fails)
next
  case (Inr entry_text)
  show ?thesis
  proof (cases "dry_run args")
    case True
    with Inr show ?thesis by (simp add: process_entry_dry)
  next
    case False
    note live = process_entry_live [OF False Inr]
    show ?thesis
    proof (cases "dedupe_check args entry (lp_dupes lp)")
      case (Inl err)
      with live show ?thesis by simp
    next
      case (Inr r)
      show ?thesis
      proof (cases r)
        case None
        with Inr live show ?thesis by simp
      next
        case (Some dupes')
        with Inr live assms show ?thesis
          by (simp add: publish_no_images split: option.splits)
      qed
    qed
  qed
qed

text \<open>
  C10. \<^verbatim>\<open>find_images\<close> returns \<^verbatim>\<open>None\<close> for the empty string, which is also what
  \<^verbatim>\<open>get_entry\<close> passes for a missing summary. The entry's \<^verbatim>\<open>images\<close> is then
  \<^verbatim>\<open>None\<close>, the guard of line 86 is false whatever the feed's configuration, and
  processing the entry neither fetches nor uploads an image.
\<close>

theorem no_image_for_empty_summary:
  assumes "r_summary raw = None \<or> r_summary raw = Some []"
      and "get_entry env raw = Inr entry"
  shows "find_images env [] = None
       \<and> e_images entry = None
       \<and> \<not> (f_include_images feed \<and> images_of entry \<noteq> [])
       \<and> filter is_image_call (lp_trace (snd (process_entry env args feed (Inr entry) lp)))
           = filter is_image_call (lp_trace lp)"
proof -
  have f: "find_images env [] = None" by (simp add: find_images_def)
  from assms have i: "e_images entry = None"
    by (auto simp: get_entry_def Let_def find_images_def split: sum.splits option.splits)
  from i have "images_of entry = []" by (simp add: images_of_def)
  with f i process_entry_no_images [OF i] show ?thesis by simp
qed

theorem no_image_for_empty_summary_witness:
  "(r_summary demo_a1 = None
      \<or> r_summary demo_a1 = Some [])
   \<and> get_entry demo_env demo_a1 = Inr demo_first
   \<and> e_images demo_first = None
   \<and> filter is_image_call (lp_trace (snd (process_entry demo_env demo_args
          ((demo_feed ''https://a.example/feed'')\<lparr>f_include_images := True\<rparr>)
          (Inr demo_first) demo_loop)))
       = filter is_image_call (lp_trace demo_loop)
   \<and> process_entry demo_env demo_args
          ((demo_feed ''https://a.example/feed'')\<lparr>f_include_images := True\<rparr>)
          (Inr demo_first) demo_loop
       = (None, \<lparr> lp_newest_post = 63839664000000000, lp_dupes = SList [],
                  lp_trace = [StatusPost ''First a1'' []] \<rparr>)"
proof -
  have h1: "r_summary demo_a1 = None \<or> r_summary demo_a1 = Some []"
    by (simp add: demo_a1_def demo_entry_def)
  have h2: "get_entry demo_env demo_a1 = Inr demo_first"
    by (simp add: get_entry_def demo_a1_def demo_entry_def demo_env_def entry_instant_def demo_parse_def
                  demo_dates_def find_images_def demo_first_def)
  note t = no_image_for_empty_summary [OF h1 h2,
      of "(demo_feed ''https://a.example/feed'')\<lparr>f_include_images := True\<rparr>" demo_args
         demo_loop]
  have p: "process_entry demo_env demo_args
          ((demo_feed ''https://a.example/feed'')\<lparr>f_include_images := True\<rparr>)
          (Inr demo_first) demo_loop
       = (None, \<lparr> lp_newest_post = 63839664000000000, lp_dupes = SList [],
                  lp_trace = [StatusPost ''First a1'' []] \<rparr>)"
    by (simp add: process_entry_def render_def publish_def images_of_def demo_env_def
                  demo_args_def demo_feed_def demo_format_def dedupe_check_def Let_def
                  demo_first_def demo_loop_def)
  from h1 h2 t p show ?thesis by blast
qed

lemma process_entry_pause:
  assumes "delay args" and "process_entry env args feed item lp = (None, lp')"
  shows "(\<exists>tr entry_text medias d.
            lp_trace lp' = tr @ [StatusPost entry_text medias, PrintDelaying d, Sleep d]
            \<and> d = randrange (random_draw env (tr @ [StatusPost entry_text medias])) 10 30)
         \<or> (filter is_status_post (lp_trace lp') = filter is_status_post (lp_trace lp)
            \<and> filter is_sleep (lp_trace lp') = filter is_sleep (lp_trace lp))"
proof (cases item)
  case (Inl e)
  with assms show ?thesis by (simp add: process_entry_def)
next
  case item: (Inr entry)
  show ?thesis
  proof (cases "render env feed entry")
    case (Inl err)
    with assms(2) item show ?thesis by (simp add: process_entry_render_fails)
  next
    case (Inr entry_text)
    show ?thesis
    proof (cases "dry_run args")
      case True
      with Inr assms(2) item show ?thesis by (auto simp: process_entry_dry)
    next
      case False
      note live = process_entry_live [OF False Inr, of lp]
      show ?thesis
      proof (cases "dedupe_check args entry (lp_dupes lp)")
        case (Inl err)
        with live assms(2) item show ?thesis by simp
      next
        case r: (Inr r)
        show ?thesis
        proof (cases r)
          case None
          with r live assms(2) item show ?thesis by auto
        next
          case (Some dupes')
          with r live assms(2) item obtain lp0 where
            "publish env args feed entry entry_text lp0 = (None, lp')" by simp
          from publish_success [OF this] assms(1) obtain tr medias where
            "lp' = lp0\<lparr>lp_trace := tr @ [StatusPost entry_text medias] @
              [PrintDelaying (randrange (random_draw env (tr @ [StatusPost entry_text medias])) 10 30),
               Sleep (randrange (random_draw env (tr @ [StatusPost entry_text medias])) 10 30)]\<rparr>"
            by auto
          then have "lp_trace lp' = tr @ [StatusPost entry_text medias,
              PrintDelaying (randrange (random_draw env (tr @ [StatusPost entry_text medias])) 10 30),
              Sleep (randrange (random_draw env (tr @ [StatusPost entry_text medias])) 10 30)]"
            by simp
          then show ?thesis by blast
        qed
      qed
    qed
  qed
qed

text \<open>
  With \<^verbatim>\<open>--delay\<close>, an entry that has been processed without an exception was
  either published, and then the post is followed at once, before the next entry, by a
  pause of \<^verbatim>\<open>random.randrange(10, 30)\<close> seconds, a whole number that is at least 10
  and less than 30; or it was not published, and then there was no pause. How the
  generator's draws are distributed is not a matter of the program.
\<close>

lemma pause_after_each_post:
  assumes "delay args" and "process_entry env args feed item lp = (None, lp')"
  shows "(\<exists>tr entry_text medias d.
            lp_trace lp' = tr @ [StatusPost entry_text medias, PrintDelaying d, Sleep d]
            \<and> d = randrange (random_draw env (tr @ [StatusPost entry_text medias])) 10 30
            \<and> 10 \<le> d \<and> d < 30)
          \<or> (filter is_status_post (lp_trace lp') = filter is_status_post (lp_trace lp)
              \<and> filter is_sleep (lp_trace lp') = filter is_sleep (lp_trace lp))"
  using process_entry_pause [OF assms] randrange_bounds by blast

subsection \<open>Dictionaries\<close>

lemma map_of_dict_set: "map_of (dict_set k v d) = (map_of d)(k \<mapsto> v)"
  by (induction d) (auto simp: fun_eq_iff)

lemma dict_lookup_dict_set:
  "dict_lookup dflt (dict_set k v d) u = (if u = k then v else dict_lookup dflt d u)"
  by (simp add: dict_lookup_def map_of_dict_set)

lemma fst_defaultdict_get: "fst (defaultdict_get dflt d k) = dict_lookup dflt d k"
  by (simp add: defaultdict_get_def dict_lookup_def split: option.splits)

lemma dict_lookup_defaultdict_get:
  "dict_lookup dflt (snd (defaultdict_get dflt d k)) u = dict_lookup dflt d u"
  by (auto simp: defaultdict_get_def dict_lookup_def map_add_def split: option.splits)

lemma keys_dict_set:
  "map fst (dict_set k v d) = (if k \<in> set (map fst d) then map fst d else map fst d @ [k])"
  by (induction d) auto

lemma distinct_dict_set: "distinct (map fst d) \<Longrightarrow> distinct (map fst (dict_set k v d))"
  by (simp add: keys_dict_set)

lemma distinct_defaultdict_get:
  "distinct (map fst d) \<Longrightarrow> distinct (map fst (snd (defaultdict_get dflt d k)))"
  by (auto simp: defaultdict_get_def map_of_eq_None_iff split: option.splits)

lemma set_defaultdict_get: "set d \<subseteq> set (snd (defaultdict_get dflt d k))"
  by (auto simp: defaultdict_get_def split: option.splits)

lemma watermark_eq: "watermark st u = dict_lookup datetime_min (updated st) u"
  by (simp add: watermark_def fst_defaultdict_get)

subsection \<open>The loop over the entries\<close>

lemma process_entry_newest:
  "lp_newest_post (snd (process_entry env args feed (Inr entry) lp))
     = max (lp_newest_post lp) (e_updated entry)"
proof (cases "render env feed entry")
  case (Inl err)
  then show ?thesis by (simp add: process_entry_render_fails)
next
  case (Inr entry_text)
  show ?thesis
  proof (cases "dry_run args")
    case True
    with Inr show ?thesis by (simp add: process_entry_dry)
  next
    case False
    note live = process_entry_live [OF False Inr, of lp]
    show ?thesis
    proof (cases "dedupe_check args entry (lp_dupes lp)")
      case (Inl err)
      with live show ?thesis by simp
    next
      case r: (Inr r)
      show ?thesis
      proof (cases r)
        case None
        with r live show ?thesis by simp
      next
        case (Some dupes')
        obtain e lp' where p: "publish env args feed entry entry_text
            (lp\<lparr>lp_newest_post := max (lp_newest_post lp) (e_updated entry),
                lp_trace := lp_trace lp @ (if verbose args then [Print entry_text] else []),
                lp_dupes := dupes'\<rparr>) = (e, lp')" by (cases "publish env args feed entry entry_text
            (lp\<lparr>lp_newest_post := max (lp_newest_post lp) (e_updated entry),
                lp_trace := lp_trace lp @ (if verbose args then [Print entry_text] else []),
                lp_dupes := dupes'\<rparr>)") auto
        from publish_frame [OF p] p Some r live show ?thesis by simp
      qed
    qed
  qed
qed

lemma process_entry_Inl: "process_entry env args feed (Inl e) lp = (Some e, lp)"
  by (simp add: process_entry_def)

lemma process_entry_mono:
  "lp_newest_post lp \<le> lp_newest_post (snd (process_entry env args feed item lp))"
  by (cases item) (simp_all add: process_entry_Inl process_entry_newest)

lemma entries_loop_mono:
  "lp_newest_post lp \<le> lp_newest_post (snd (entries_loop env args feed items lp))"
proof (induction items arbitrary: lp)
  case Nil
  then show ?case by simp
next
  case (Cons item items)
  obtain e lp1 where p: "process_entry env args feed item lp = (e, lp1)"
    by (cases "process_entry env args feed item lp") auto
  from process_entry_mono [of lp env args feed item] p
  have m: "lp_newest_post lp \<le> lp_newest_post lp1" by simp
  show ?case
  proof (cases e)
    case None
    with p Cons.IH [of lp1] m show ?thesis by simp
  next
    case (Some err)
    with p m show ?thesis by simp
  qed
qed

lemma entries_loop_newest:
  "entries_loop env args feed items lp = (None, lp') \<Longrightarrow>
   \<exists>entries. items = map Inr entries
     \<and> lp_newest_post lp' = foldl max (lp_newest_post lp) (map e_updated entries)"
proof (induction items arbitrary: lp)
  case Nil
  then show ?case by simp
next
  case (Cons item items)
  obtain e lp1 where p: "process_entry env args feed item lp = (e, lp1)"
    by (cases "process_entry env args feed item lp") auto
  with Cons.prems have e: "e = None" and l: "entries_loop env args feed items lp1 = (None, lp')"
    by (cases e; simp)+
  from p e obtain entry where item: "item = Inr entry"
    by (cases item) (simp_all add: process_entry_Inl)
  from process_entry_newest [of env args feed entry lp] p item
  have n: "lp_newest_post lp1 = max (lp_newest_post lp) (e_updated entry)" by simp
  from Cons.IH [OF l] obtain entries where
    "items = map Inr entries"
    "lp_newest_post lp' = foldl max (lp_newest_post lp1) (map e_updated entries)" by blast
  with item n have "item # items = map Inr (entry # entries)
     \<and> lp_newest_post lp' = foldl max (lp_newest_post lp) (map e_updated (entry # entries))"
    by simp
  then show ?case by (rule exI)
qed

lemma process_entry_dry_frame:
  assumes "dry_run args"
  shows "lp_dupes (snd (process_entry env args feed item lp)) = lp_dupes lp
       \<and> (\<exists>evs. lp_trace (snd (process_entry env args feed item lp)) = lp_trace lp @ evs
              \<and> (\<forall>ev \<in> set evs. is_fetch_or_print ev))"
proof (cases item)
  case (Inl e)
  then show ?thesis by (simp add: process_entry_Inl)
next
  case item: (Inr entry)
  show ?thesis
  proof (cases "render env feed entry")
    case (Inl err)
    with item show ?thesis by (simp add: process_entry_render_fails)
  next
    case (Inr entry_text)
    have "lp_trace lp @ [Print entry_text] = lp_trace lp @ [Print entry_text]
          \<and> (\<forall>ev \<in> set [Print entry_text]. is_fetch_or_print ev)" by simp
    then have "\<exists>evs. lp_trace lp @ [Print entry_text] = lp_trace lp @ evs
          \<and> (\<forall>ev \<in> set evs. is_fetch_or_print ev)" by blast
    with Inr item assms show ?thesis by (simp add: process_entry_dry)
  qed
qed

lemma entries_loop_dry_frame:
  assumes "dry_run args"
  shows "lp_dupes (snd (entries_loop env args feed items lp)) = lp_dupes lp
       \<and> (\<exists>evs. lp_trace (snd (entries_loop env args feed items lp)) = lp_trace lp @ evs
              \<and> (\<forall>ev \<in> set evs. is_fetch_or_print ev))"
proof (induction items arbitrary: lp)
  case Nil
  then show ?case by simp
next
  case (Cons item items)
  obtain e lp1 where p: "process_entry env args feed item lp = (e, lp1)"
    by (cases "process_entry env args feed item lp") auto
  from process_entry_dry_frame [OF assms, of env feed item lp] p
  obtain evs1 where 1: "lp_dupes lp1 = lp_dupes lp" "lp_trace lp1 = lp_trace lp @ evs1"
    "\<forall>ev \<in> set evs1. is_fetch_or_print ev" by auto
  show ?case
  proof (cases e)
    case (Some err)
    with p 1 show ?thesis by simp
  next
    case None
    from Cons.IH [of lp1] obtain evs2 where
      2: "lp_dupes (snd (entries_loop env args feed items lp1)) = lp_dupes lp1"
         "lp_trace (snd (entries_loop env args feed items lp1)) = lp_trace lp1 @ evs2"
         "\<forall>ev \<in> set evs2. is_fetch_or_print ev" by auto
    from 1 2 have "lp_trace (snd (entries_loop env args feed items lp1)) = lp_trace lp @ (evs1 @ evs2)
       \<and> (\<forall>ev \<in> set (evs1 @ evs2). is_fetch_or_print ev)" by auto
    then have "\<exists>evs. lp_trace (snd (entries_loop env args feed items lp1)) = lp_trace lp @ evs
       \<and> (\<forall>ev \<in> set evs. is_fetch_or_print ev)" by blast
    with None p 1 2 show ?thesis by simp
  qed
qed


subsection \<open>One feed\<close>

lemma feed_step_TSlot:
  assumes "dupecheck (run_state r) = TSlot s"
  shows "feed_step env args feed r =
           (Some TypeError,
            r\<lparr>run_state := (run_state r)
                 \<lparr>updated := snd (defaultdict_get datetime_min (updated (run_state r)) (f_url feed))\<rparr>\<rparr>)"
  using assms by (simp add: feed_step_def Let_def split_def)

lemma feed_step_TDict:
  assumes "dupecheck (run_state r) = TDict d"
  shows "feed_step env args feed r =
     (let newest_post = watermark (run_state r) (f_url feed);
          upd = snd (defaultdict_get datetime_min (updated (run_state r)) (f_url feed));
          dupes = fst (defaultdict_get (SList []) d (f_url feed));
          d' = snd (defaultdict_get (SList []) d (f_url feed));
          tr = run_trace r @
                 (if verbose args then [PrintFetching (f_url feed) newest_post] else [])
      in (case get_feed env tr (f_url feed) (Some newest_post) of
            Inl err \<Rightarrow>
              (Some err,
               r\<lparr>run_state := \<lparr> updated = upd, dupecheck = TDict d' \<rparr>,
                 run_trace := tr @ [FeedparserParse (f_url feed)]\<rparr>)
          | Inr items \<Rightarrow>
              (let res = entries_loop env args feed items
                           \<lparr> lp_newest_post = newest_post, lp_dupes = dupes,
                             lp_trace = tr @ [FeedparserParse (f_url feed)] \<rparr>;
                   lp = snd res
               in if fst res \<noteq> None \<or> dry_run args
                  then (fst res,
                        r\<lparr>run_state :=
                             \<lparr> updated = upd,
                               dupecheck = TDict (dict_set (f_url feed) (lp_dupes lp) d') \<rparr>,
                          run_trace := lp_trace lp\<rparr>)
                  else (fst (save_state env
                               \<lparr> updated = dict_set (f_url feed) (lp_newest_post lp) upd,
                                 dupecheck = TSlot (lp_dupes lp) \<rparr>),
                        \<lparr> run_state = \<lparr> updated = dict_set (f_url feed) (lp_newest_post lp) upd,
                                        dupecheck = TSlot (lp_dupes lp) \<rparr>,
                          run_file = snd (save_state env
                               \<lparr> updated = dict_set (f_url feed) (lp_newest_post lp) upd,
                                 dupecheck = TSlot (lp_dupes lp) \<rparr>),
                          run_trace = lp_trace lp @
                            [SaveState (snd (save_state env
                               \<lparr> updated = dict_set (f_url feed) (lp_newest_post lp) upd,
                                 dupecheck = TSlot (lp_dupes lp) \<rparr>))] \<rparr>))))"
  using assms
  by (cases "run_state r")
     (auto simp: feed_step_def Let_def split_def watermark_def
           split: sum.splits option.splits prod.splits)

lemma feed_step_fetch_fails:
  assumes "dupecheck (run_state r) = TDict d"
      and "get_feed env
             (run_trace r @ (if verbose args
                then [PrintFetching (f_url feed) (watermark (run_state r) (f_url feed))] else []))
             (f_url feed) (Some (watermark (run_state r) (f_url feed))) = Inl err"
  shows "feed_step env args feed r =
           (Some err,
            r\<lparr>run_state :=
                 \<lparr> updated = snd (defaultdict_get datetime_min (updated (run_state r)) (f_url feed)),
                   dupecheck = TDict (snd (defaultdict_get (SList []) d (f_url feed))) \<rparr>,
              run_trace :=
                 (run_trace r @ (if verbose args
                    then [PrintFetching (f_url feed) (watermark (run_state r) (f_url feed))] else []))
                 @ [FeedparserParse (f_url feed)]\<rparr>)"
  using assms by (simp add: feed_step_TDict Let_def)

lemma feed_step_loop:
  assumes "dupecheck (run_state r) = TDict d"
      and "get_feed env
             (run_trace r @ (if verbose args
                then [PrintFetching (f_url feed) (watermark (run_state r) (f_url feed))] else []))
             (f_url feed) (Some (watermark (run_state r) (f_url feed))) = Inr items"
      and "entries_loop env args feed items
             \<lparr> lp_newest_post = watermark (run_state r) (f_url feed),
               lp_dupes = fst (defaultdict_get (SList []) d (f_url feed)),
               lp_trace = (run_trace r @ (if verbose args
                    then [PrintFetching (f_url feed) (watermark (run_state r) (f_url feed))] else []))
                 @ [FeedparserParse (f_url feed)] \<rparr> = (e, lp)"
  shows "feed_step env args feed r =
     (if e \<noteq> None \<or> dry_run args
      then (e,
            r\<lparr>run_state :=
                 \<lparr> updated = snd (defaultdict_get datetime_min (updated (run_state r)) (f_url feed)),
                   dupecheck = TDict (dict_set (f_url feed) (lp_dupes lp)
                                        (snd (defaultdict_get (SList []) d (f_url feed)))) \<rparr>,
              run_trace := lp_trace lp\<rparr>)
      else (fst (save_state env
                   \<lparr> updated = dict_set (f_url feed) (lp_newest_post lp)
                        (snd (defaultdict_get datetime_min (updated (run_state r)) (f_url feed))),
                     dupecheck = TSlot (lp_dupes lp) \<rparr>),
            \<lparr> run_state =
                \<lparr> updated = dict_set (f_url feed) (lp_newest_post lp)
                        (snd (defaultdict_get datetime_min (updated (run_state r)) (f_url feed))),
                  dupecheck = TSlot (lp_dupes lp) \<rparr>,
              run_file = snd (save_state env
                   \<lparr> updated = dict_set (f_url feed) (lp_newest_post lp)
                        (snd (defaultdict_get datetime_min (updated (run_state r)) (f_url feed))),
                     dupecheck = TSlot (lp_dupes lp) \<rparr>),
              run_trace = lp_trace lp @
                [SaveState (snd (save_state env
                   \<lparr> updated = dict_set (f_url feed) (lp_newest_post lp)
                        (snd (defaultdict_get datetime_min (updated (run_state r)) (f_url feed))),
                     dupecheck = TSlot (lp_dupes lp) \<rparr>))] \<rparr>))"
  using assms by (simp add: feed_step_TDict Let_def)

lemma feed_step_watermark_mono:
  "watermark (run_state r) u \<le> watermark (run_state (snd (feed_step env args feed r))) u"
proof (cases "dupecheck (run_state r)")
  case (TSlot s)
  then show ?thesis
    by (simp add: feed_step_TSlot watermark_eq dict_lookup_defaultdict_get)
next
  case (TDict d)
  let ?w = "watermark (run_state r) (f_url feed)"
  let ?tr = "run_trace r @ (if verbose args then [PrintFetching (f_url feed) ?w] else [])"
  show ?thesis
  proof (cases "get_feed env ?tr (f_url feed) (Some ?w)")
    case (Inl err)
    show ?thesis
      unfolding feed_step_fetch_fails [OF TDict Inl]
      by (simp add: watermark_eq dict_lookup_defaultdict_get)
  next
    case (Inr items)
    let ?lp0 = "\<lparr> lp_newest_post = ?w, lp_dupes = fst (defaultdict_get (SList []) d (f_url feed)),
                   lp_trace = ?tr @ [FeedparserParse (f_url feed)] \<rparr>"
    obtain e lp where el: "entries_loop env args feed items ?lp0 = (e, lp)"
      by (cases "entries_loop env args feed items ?lp0") auto
    from entries_loop_mono [of ?lp0 env args feed items] el
    have "?w \<le> lp_newest_post lp" by simp
    then have "dict_lookup datetime_min (updated (run_state r)) (f_url feed) \<le> lp_newest_post lp"
      by (simp add: watermark_eq)
    then show ?thesis
      unfolding feed_step_loop [OF TDict Inr el]
      by (simp add: watermark_eq dict_lookup_defaultdict_get dict_lookup_dict_set)
  qed
qed

lemma feed_step_stores_max:
  assumes "dupecheck (run_state r1) = TDict d" and "\<not> dry_run args"
      and "feed_step env args feed r1 = (None, r2)"
  shows "\<exists>entries.
           get_feed env
             (run_trace r1 @ (if verbose args
                then [PrintFetching (f_url feed) (watermark (run_state r1) (f_url feed))] else []))
             (f_url feed) (Some (watermark (run_state r1) (f_url feed))) = Inr (map Inr entries)
         \<and> watermark (run_state r2) (f_url feed)
             = foldl max (watermark (run_state r1) (f_url feed)) (map e_updated entries)"
proof -
  let ?w = "watermark (run_state r1) (f_url feed)"
  let ?tr = "run_trace r1 @ (if verbose args then [PrintFetching (f_url feed) ?w] else [])"
  show ?thesis
  proof (cases "get_feed env ?tr (f_url feed) (Some ?w)")
    case (Inl err)
    from assms(3) show ?thesis
      unfolding feed_step_fetch_fails [OF assms(1) Inl] by simp
  next
    case (Inr items)
    let ?lp0 = "\<lparr> lp_newest_post = ?w, lp_dupes = fst (defaultdict_get (SList []) d (f_url feed)),
                   lp_trace = ?tr @ [FeedparserParse (f_url feed)] \<rparr>"
    obtain e lp where el: "entries_loop env args feed items ?lp0 = (e, lp)"
      by (cases "entries_loop env args feed items ?lp0") auto
    note fs = feed_step_loop [OF assms(1) Inr el]
    from assms(2,3) fs have e: "e = None" by (cases e) simp_all
    from entries_loop_newest [OF el [unfolded e]] obtain entries where
      en: "items = map Inr entries" "lp_newest_post lp = foldl max ?w (map e_updated entries)"
      by auto
    from assms(2,3) fs e have "updated (run_state r2) =
        dict_set (f_url feed) (lp_newest_post lp)
          (snd (defaultdict_get datetime_min (updated (run_state r1)) (f_url feed)))"
      by auto
    then have "watermark (run_state r2) (f_url feed) = lp_newest_post lp"
      by (simp add: watermark_eq dict_lookup_dict_set)
    with en Inr show ?thesis by simp
  qed
qed

lemma ledger_TDict:
  "dupecheck st = TDict d \<Longrightarrow> ledger st u = Inr (dict_lookup (SList []) d u)"
  by (simp add: ledger_def fst_defaultdict_get)

lemma feed_step_dry:
  assumes "dry_run args" and "dupecheck (run_state r) = TDict d"
  shows "dry_frame r (snd (feed_step env args feed r))"
proof -
  let ?w = "watermark (run_state r) (f_url feed)"
  let ?pf = "if verbose args then [PrintFetching (f_url feed) ?w] else []"
  let ?tr = "run_trace r @ ?pf"
  have pf: "\<forall>ev \<in> set (?pf @ [FeedparserParse (f_url feed)]). is_fetch_or_print ev" by simp
  show ?thesis
  proof (cases "get_feed env ?tr (f_url feed) (Some ?w)")
    case (Inl err)
    have "run_trace r @ ?pf @ [FeedparserParse (f_url feed)]
            = run_trace r @ (?pf @ [FeedparserParse (f_url feed)])" by simp
    with pf have "\<exists>evs. run_trace r @ ?pf @ [FeedparserParse (f_url feed)] = run_trace r @ evs
        \<and> (\<forall>ev \<in> set evs. is_fetch_or_print ev)" by blast
    then show ?thesis
      unfolding feed_step_fetch_fails [OF assms(2) Inl] dry_frame_def
      using assms(2)
      by (simp add: watermark_eq dict_lookup_defaultdict_get ledger_TDict)
  next
    case (Inr items)
    let ?lp0 = "\<lparr> lp_newest_post = ?w, lp_dupes = fst (defaultdict_get (SList []) d (f_url feed)),
                   lp_trace = ?tr @ [FeedparserParse (f_url feed)] \<rparr>"
    obtain e lp where el: "entries_loop env args feed items ?lp0 = (e, lp)"
      by (cases "entries_loop env args feed items ?lp0") auto
    from entries_loop_dry_frame [OF assms(1), of env feed items ?lp0] el
    obtain evs where
      1: "lp_dupes lp = dict_lookup (SList []) d (f_url feed)"
         "lp_trace lp = (?tr @ [FeedparserParse (f_url feed)]) @ evs"
         "\<forall>ev \<in> set evs. is_fetch_or_print ev"
      by (auto simp: fst_defaultdict_get)
    from 1 pf have "lp_trace lp = run_trace r @ (?pf @ [FeedparserParse (f_url feed)] @ evs)
        \<and> (\<forall>ev \<in> set (?pf @ [FeedparserParse (f_url feed)] @ evs). is_fetch_or_print ev)"
      by auto
    then have "\<exists>evs. lp_trace lp = run_trace r @ evs \<and> (\<forall>ev \<in> set evs. is_fetch_or_print ev)"
      by blast
    then show ?thesis
      unfolding feed_step_loop [OF assms(2) Inr el] dry_frame_def
      using assms 1(1)
      by (simp add: watermark_eq dict_lookup_defaultdict_get ledger_TDict dict_lookup_dict_set)
  qed
qed

lemma dry_frame_refl: "dupecheck (run_state r) = TDict d \<Longrightarrow> dry_frame r r"
  by (simp add: dry_frame_def)

lemma dry_frame_trans:
  assumes "dry_frame r r1" and "dry_frame r1 r2"
  shows "dry_frame r r2"
proof -
  from assms obtain evs1 evs2 where
    "run_trace r1 = run_trace r @ evs1" "\<forall>ev \<in> set evs1. is_fetch_or_print ev"
    "run_trace r2 = run_trace r1 @ evs2" "\<forall>ev \<in> set evs2. is_fetch_or_print ev"
    unfolding dry_frame_def by blast
  then have "run_trace r2 = run_trace r @ (evs1 @ evs2)
     \<and> (\<forall>ev \<in> set (evs1 @ evs2). is_fetch_or_print ev)" by auto
  then have "\<exists>evs. run_trace r2 = run_trace r @ evs \<and> (\<forall>ev \<in> set evs. is_fetch_or_print ev)"
    by blast
  with assms show ?thesis unfolding dry_frame_def by simp
qed

lemma main_loop_dry:
  assumes "dry_run args"
  shows "dupecheck (run_state r) = TDict d \<Longrightarrow> dry_frame r (snd (main_loop env args feeds r))"
proof (induction feeds arbitrary: r d)
  case Nil
  then show ?case by (simp add: dry_frame_refl)
next
  case (Cons feed feeds)
  obtain e r1 where f: "feed_step env args feed r = (e, r1)"
    by (cases "feed_step env args feed r") auto
  from feed_step_dry [OF assms Cons.prems, of env feed] f
  have 1: "dry_frame r r1" by simp
  show ?case
  proof (cases e)
    case (Some err)
    with f 1 show ?thesis by simp
  next
    case None
    from 1 obtain d1 where "dupecheck (run_state r1) = TDict d1"
      unfolding dry_frame_def by blast
    from Cons.IH [OF this] have "dry_frame r1 (snd (main_loop env args feeds r1))" .
    with 1 have "dry_frame r (snd (main_loop env args feeds r1))" by (rule dry_frame_trans)
    with None f show ?thesis by simp
  qed
qed

lemma read_state_TDict:
  "read_state env state_file = Inr st \<Longrightarrow> \<exists>d. dupecheck st = TDict d"
  by (auto simp: read_state_def split: file_content.splits sum.splits option.splits)

subsection \<open>The dedupe check\<close>

lemma dedupe_check_SList:
  assumes "dedupe args \<noteq> []" and "entry_get entry (dedupe args) = Inr v"
  shows "dedupe_check args entry (SList xs) =
           (if v \<in> set xs then Inr None
            else Inr (Some (SList ((if length xs > 50 then tl xs else xs) @ [v]))))"
  using assms by (simp add: dedupe_check_def)

text \<open>
  C6. In a run that is not a dry run and has a dedupe field, take an entry whose text
  renders and whose dedupe field holds \<open>v\<close>, and a ledger that is a list. If \<open>v\<close> is in
  the ledger, the turn ends there: nothing is fetched, uploaded or published, the ledger
  is as it was, and \<^verbatim>\<open>newest_post\<close> has been raised to the maximum of itself and the
  entry's date. If \<open>v\<close> is not in the ledger, it is recorded first, and only then come the
  images and the post: they run on a ledger that already holds \<open>v\<close>, and the ledger
  holds \<open>v\<close> afterwards whether they raise or not.
\<close>

theorem dedupe_hit_skips_miss_records_first:
  assumes "\<not> dry_run args" and "dedupe args \<noteq> []"
      and "render env feed entry = Inr entry_text"
      and "entry_get entry (dedupe args) = Inr v"
      and "lp_dupes lp = SList xs"
  shows "process_entry env args feed (Inr entry) lp =
           (if v \<in> set xs
            then (None,
                  lp\<lparr>lp_newest_post := max (lp_newest_post lp) (e_updated entry),
                     lp_trace := lp_trace lp @
                        (if verbose args
                         then [Print entry_text, PrintSkipping entry_text (dedupe args)]
                         else [])\<rparr>)
            else publish env args feed entry entry_text
                   (lp\<lparr>lp_newest_post := max (lp_newest_post lp) (e_updated entry),
                       lp_trace := lp_trace lp @ (if verbose args then [Print entry_text] else []),
                       lp_dupes := SList ((if length xs > 50 then tl xs else xs) @ [v])\<rparr>))
       \<and> lp_newest_post (snd (process_entry env args feed (Inr entry) lp))
           = max (lp_newest_post lp) (e_updated entry)
       \<and> lp_dupes (snd (process_entry env args feed (Inr entry) lp))
           = (if v \<in> set xs then SList xs
              else SList ((if length xs > 50 then tl xs else xs) @ [v]))"
proof -
  note live = process_entry_live [OF assms(1) assms(3), of lp]
  note dc = dedupe_check_SList [OF assms(2) assms(4), of xs]
  have eq: "process_entry env args feed (Inr entry) lp =
           (if v \<in> set xs
            then (None,
                  lp\<lparr>lp_newest_post := max (lp_newest_post lp) (e_updated entry),
                     lp_trace := lp_trace lp @
                        (if verbose args
                         then [Print entry_text, PrintSkipping entry_text (dedupe args)]
                         else [])\<rparr>)
            else publish env args feed entry entry_text
                   (lp\<lparr>lp_newest_post := max (lp_newest_post lp) (e_updated entry),
                       lp_trace := lp_trace lp @ (if verbose args then [Print entry_text] else []),
                       lp_dupes := SList ((if length xs > 50 then tl xs else xs) @ [v])\<rparr>))"
    using live dc assms(5) by simp
  have d: "lp_dupes (snd (process_entry env args feed (Inr entry) lp))
           = (if v \<in> set xs then SList xs
              else SList ((if length xs > 50 then tl xs else xs) @ [v]))"
  proof (cases "v \<in> set xs")
    case True
    with eq assms(5) show ?thesis by simp
  next
    case False
    let ?lp = "lp\<lparr>lp_newest_post := max (lp_newest_post lp) (e_updated entry),
                   lp_trace := lp_trace lp @ (if verbose args then [Print entry_text] else []),
                   lp_dupes := SList ((if length xs > 50 then tl xs else xs) @ [v])\<rparr>"
    obtain e lp' where p: "publish env args feed entry entry_text ?lp = (e, lp')"
      by (cases "publish env args feed entry entry_text ?lp") auto
    from publish_frame [OF p] have "lp_dupes lp' = SList ((if length xs > 50 then tl xs else xs) @ [v])"
      by simp
    with False eq p show ?thesis by simp
  qed
  from eq d process_entry_newest [of env args feed entry lp] show ?thesis by blast
qed

theorem dedupe_hit_skips_miss_records_first_witness:
  "\<not> dry_run (demo_args\<lparr>dedupe := ''link''\<rparr>)
   \<and> dedupe (demo_args\<lparr>dedupe := ''link''\<rparr>) \<noteq> []
   \<and> render demo_env (demo_feed ''https://a.example/feed'') demo_first = Inr ''First a1''
   \<and> entry_get demo_first (dedupe (demo_args\<lparr>dedupe := ''link''\<rparr>))
        = Inr (PStr ''https://a.example/1'')
   \<and> lp_dupes (demo_loop\<lparr>lp_dupes := SList [PStr ''https://a.example/1'']\<rparr>)
        = SList [PStr ''https://a.example/1'']
   \<and> process_entry demo_env (demo_args\<lparr>dedupe := ''link''\<rparr>)
        (demo_feed ''https://a.example/feed'') (Inr demo_first)
        (demo_loop\<lparr>lp_dupes := SList [PStr ''https://a.example/1'']\<rparr>)
        = (None, \<lparr> lp_newest_post = 63839664000000000,
                   lp_dupes = SList [PStr ''https://a.example/1''], lp_trace = [] \<rparr>)
   \<and> lp_dupes demo_loop = SList []
   \<and> process_entry demo_env (demo_args\<lparr>dedupe := ''link''\<rparr>)
        (demo_feed ''https://a.example/feed'') (Inr demo_first) demo_loop
        = (None, \<lparr> lp_newest_post = 63839664000000000,
                   lp_dupes = SList [PStr ''https://a.example/1''],
                   lp_trace = [StatusPost ''First a1'' []] \<rparr>)"
proof -
  let ?A = "demo_args\<lparr>dedupe := ''link''\<rparr>"
  let ?F = "demo_feed ''https://a.example/feed''"
  let ?L = "demo_loop\<lparr>lp_dupes := SList [PStr ''https://a.example/1'']\<rparr>"
  have h1: "\<not> dry_run ?A" by (simp add: demo_args_def)
  have h2: "dedupe ?A \<noteq> []" by simp
  have h3: "render demo_env ?F demo_first = Inr ''First a1''"
    by (simp add: render_def demo_env_def demo_feed_def demo_format_def demo_first_def)
  have h4: "entry_get demo_first (dedupe ?A) = Inr (PStr ''https://a.example/1'')"
    by (simp add: entry_get_def demo_first_def)
  have h5: "lp_dupes ?L = SList [PStr ''https://a.example/1'']" by simp
  have h6: "lp_dupes demo_loop = SList []" by (simp add: demo_loop_def)
  from dedupe_hit_skips_miss_records_first [OF h1 h2 h3 h4 h5]
  have "process_entry demo_env ?A ?F (Inr demo_first) ?L =
          (if PStr ''https://a.example/1'' \<in> set [PStr ''https://a.example/1'']
            then (None,
                  ?L\<lparr>lp_newest_post := max (lp_newest_post ?L) (e_updated demo_first),
                     lp_trace := lp_trace ?L @
                        (if verbose ?A
                         then [Print ''First a1'', PrintSkipping ''First a1'' (dedupe ?A)]
                         else [])\<rparr>)
            else publish demo_env ?A ?F demo_first ''First a1''
                   (?L\<lparr>lp_newest_post := max (lp_newest_post ?L) (e_updated demo_first),
                       lp_trace := lp_trace ?L @ (if verbose ?A then [Print ''First a1''] else []),
                       lp_dupes := SList ((if length [PStr ''https://a.example/1''] > 50
                                           then tl [PStr ''https://a.example/1'']
                                           else [PStr ''https://a.example/1''])
                                          @ [PStr ''https://a.example/1''])\<rparr>))"
    by (rule conjunct1)
  then have hit: "process_entry demo_env ?A ?F (Inr demo_first) ?L
        = (None, \<lparr> lp_newest_post = 63839664000000000,
                   lp_dupes = SList [PStr ''https://a.example/1''], lp_trace = [] \<rparr>)"
    by (simp add: demo_loop_def demo_first_def demo_args_def)
  from dedupe_hit_skips_miss_records_first [OF h1 h2 h3 h4 h6]
  have "process_entry demo_env ?A ?F (Inr demo_first) demo_loop =
          (if PStr ''https://a.example/1'' \<in> set []
            then (None,
                  demo_loop\<lparr>lp_newest_post := max (lp_newest_post demo_loop) (e_updated demo_first),
                     lp_trace := lp_trace demo_loop @
                        (if verbose ?A
                         then [Print ''First a1'', PrintSkipping ''First a1'' (dedupe ?A)]
                         else [])\<rparr>)
            else publish demo_env ?A ?F demo_first ''First a1''
                   (demo_loop\<lparr>lp_newest_post := max (lp_newest_post demo_loop) (e_updated demo_first),
                       lp_trace := lp_trace demo_loop @ (if verbose ?A then [Print ''First a1''] else []),
                       lp_dupes := SList ((if length ([] :: pyval list) > 50 then tl [] else [])
                                          @ [PStr ''https://a.example/1''])\<rparr>))"
    by (rule conjunct1)
  then have miss: "process_entry demo_env ?A ?F (Inr demo_first) demo_loop
        = (None, \<lparr> lp_newest_post = 63839664000000000,
                   lp_dupes = SList [PStr ''https://a.example/1''],
                   lp_trace = [StatusPost ''First a1'' []] \<rparr>)"
    by (simp add: demo_loop_def demo_first_def demo_args_def publish_def images_of_def
                  demo_env_def demo_feed_def)
  from h1 h2 h3 h4 h5 h6 hit miss show ?thesis by blast
qed

subsection \<open>A dry run\<close>

text \<open>
  When the configuration file exists, a dry run that has loaded its state changes
  nothing, whatever the feeds and however the run ends: the state file is what it was;
  every event of the run is a print or a fetch of a feed, so there is no call to the
  posting service, no image request, no pause and no write of the state file; every feed
  has the watermark and the ledger it had when the state was loaded; and an entry whose
  text renders is processed by printing that text.
\<close>

lemma dry_run_changes_nothing:
  assumes "dry_run args"
      and "read_state env state_file = Inr st0"
      and "main env args (Some feeds) state_file = (err, r)"
  shows "run_file r = state_file
       \<and> (\<forall>ev \<in> set (run_trace r). is_fetch_or_print ev)
       \<and> (\<forall>u. watermark (run_state r) u = watermark st0 u
              \<and> ledger (run_state r) u = ledger st0 u)
       \<and> (\<forall>feed entry entry_text lp.
             render env feed entry = Inr entry_text \<longrightarrow>
             process_entry env args feed (Inr entry) lp =
               (None, lp\<lparr>lp_newest_post := max (lp_newest_post lp) (e_updated entry),
                          lp_trace := lp_trace lp @ [Print entry_text]\<rparr>))"
proof -
  let ?r0 = "\<lparr> run_state = st0, run_file = state_file,
               run_trace = (if verbose args then [PrintUsingFiles] else []) \<rparr>"
  from assms(2) obtain d where "dupecheck (run_state ?r0) = TDict d"
    using read_state_TDict by fastforce
  from main_loop_dry [OF assms(1) this, of env feeds] assms(2,3)
  have "dry_frame ?r0 r" by (simp add: main_def)
  then have "run_file r = state_file"
    "\<forall>u. watermark (run_state r) u = watermark st0 u"
    "\<forall>u. ledger (run_state r) u = ledger st0 u"
    "\<forall>ev \<in> set (run_trace r). is_fetch_or_print ev"
    unfolding dry_frame_def by auto
  with process_entry_dry [OF assms(1)] show ?thesis by simp
qed

text \<open>
  \<^verbatim>\<open>setup\<close> is not given the arguments of the command line. When it returns, it
  has loaded the state and saved it again.
\<close>

lemma setup_fn_saves_state:
  assumes "setup_fn env state_file tr = (Inr feeds, file', tr')"
  shows "\<exists>st. read_state env state_file = Inr st
            \<and> save_state env st = (None, file')
            \<and> SaveState file' \<in> set tr'"
  using assms
  by (auto simp: setup_fn_def Let_def split_def
           split: prod.splits option.splits if_splits sum.splits)

text \<open>
  C7 fails on the code when the configuration file is missing. \<^verbatim>\<open>main\<close> then calls
  \<^verbatim>\<open>setup\<close>, which writes the configuration file and calls \<^verbatim>\<open>save_state\<close>
  without a look at \<^verbatim>\<open>--dry-run\<close>. In the run below there is neither a configuration
  file nor a state file, and the user lets the old entries be tooted: the dry run writes
  the configuration file, creates the state file, and then goes through feed \<open>a\<close>
  printing. The same dry run with the configuration file in place writes nothing.
\<close>

theorem dry_run_setup_writes_state_file:
  "main demo_env (demo_args\<lparr>dry_run := True\<rparr>) None Absent
     = (None,
        \<lparr> run_state = \<lparr> updated = [(''https://a.example/feed'', 0)],
                        dupecheck = TDict [(''https://a.example/feed'', SList [])] \<rparr>,
          run_file = Doc \<lparr> doc_updated = Some [], doc_dupecheck = Some (TDict []) \<rparr>,
          run_trace =
            [Input ''What is your Mastodon Instance URL? '',
             Input ''Do you have your app credentials already? [y/n] '',
             Input (''What is your app'' @ [CHR 0x27] @ ''s client id: ''),
             Input ''What is your client secret: '',
             Input ''access_token: '',
             Input ''RSS/Atom feed URL to watch: '',
             Input ''Shall already existing entries be tooted, too? [y/n] '',
             Input ''Do you want to attach images (the first 4) found in entries to your toot? [y/n] '',
             SaveConfig [\<lparr> f_url = ''https://a.example/feed'', f_template = ''{title} {url}'',
                           f_include_images = True \<rparr>],
             SaveState (Doc \<lparr> doc_updated = Some [], doc_dupecheck = Some (TDict []) \<rparr>),
             PrintSaved,
             FeedparserParse ''https://a.example/feed'',
             Print ''First a1'', Print ''Second a2''] \<rparr>)
   \<and> main demo_env (demo_args\<lparr>dry_run := True\<rparr>)
        (Some [\<lparr> f_url = ''https://a.example/feed'', f_template = ''{title} {url}'',
                  f_include_images = True \<rparr>]) Absent
     = (None,
        \<lparr> run_state = \<lparr> updated = [(''https://a.example/feed'', 0)],
                        dupecheck = TDict [(''https://a.example/feed'', SList [])] \<rparr>,
          run_file = Absent,
          run_trace =
            [FeedparserParse ''https://a.example/feed'',
             Print ''First a1'', Print ''Second a2''] \<rparr>)"
  by code_simp

subsection \<open>A feed that cannot be fetched\<close>

text \<open>
  A feed whose fetch failed reaches the program as a feed with the entries that
  \<^verbatim>\<open>feedparser.parse\<close> could make out, none when the server did not answer. In a dry
  run such a feed leaves everything as it was, the feeds after it are worked through, and
  the only event is the fetch.
\<close>

lemma failed_fetch_dry_run_goes_on:
  assumes "dry_run args"
      and "dupecheck (run_state r) = TDict d"
      and "feedparser_parse env
             (run_trace r @ (if verbose args
                then [PrintFetching (f_url feed) (watermark (run_state r) (f_url feed))] else []))
             (f_url feed) = Inr []"
  shows "\<exists>r'. main_loop env args (feed # feeds) r = main_loop env args feeds r'
           \<and> run_file r' = run_file r
           \<and> run_trace r' =
                run_trace r @ (if verbose args
                   then [PrintFetching (f_url feed) (watermark (run_state r) (f_url feed))] else [])
                @ [FeedparserParse (f_url feed)]
           \<and> (\<forall>u. watermark (run_state r') u = watermark (run_state r) u
                  \<and> ledger (run_state r') u = ledger (run_state r) u)"
proof -
  let ?w = "watermark (run_state r) (f_url feed)"
  let ?tr = "run_trace r @ (if verbose args then [PrintFetching (f_url feed) ?w] else [])"
  let ?lp0 = "\<lparr> lp_newest_post = ?w, lp_dupes = fst (defaultdict_get (SList []) d (f_url feed)),
                 lp_trace = ?tr @ [FeedparserParse (f_url feed)] \<rparr>"
  from assms(3) have g: "get_feed env ?tr (f_url feed) (Some ?w) = Inr []"
    by (simp add: get_feed_def get_feed_entries_def sort_entries_def)
  let ?r' = "r\<lparr>run_state :=
                 \<lparr> updated = snd (defaultdict_get datetime_min (updated (run_state r)) (f_url feed)),
                   dupecheck = TDict (dict_set (f_url feed)
                                        (fst (defaultdict_get (SList []) d (f_url feed)))
                                        (snd (defaultdict_get (SList []) d (f_url feed)))) \<rparr>,
               run_trace := ?tr @ [FeedparserParse (f_url feed)]\<rparr>"
  have el: "entries_loop env args feed [] ?lp0 = (None, ?lp0)" by simp
  from feed_step_loop [OF assms(2) g el] assms(1)
  have step: "feed_step env args feed r = (None, ?r')" by simp
  then have 1: "main_loop env args (feed # feeds) r = main_loop env args feeds ?r'" by simp
  have 2: "run_file ?r' = run_file r" by simp
  have 3: "run_trace ?r' =
             run_trace r @ (if verbose args then [PrintFetching (f_url feed) ?w] else [])
             @ [FeedparserParse (f_url feed)]" by simp
  have 4: "\<forall>u. watermark (run_state ?r') u = watermark (run_state r) u"
    by (simp add: watermark_eq dict_lookup_defaultdict_get)
  have "ledger (run_state ?r') u = ledger (run_state r) u" for u
    using assms(2)
    by (simp add: ledger_TDict [of _ d] ledger_TDict [of _ "dict_set _ _ _"]
                  dict_lookup_dict_set dict_lookup_defaultdict_get fst_defaultdict_get)
  then have 5: "\<forall>u. ledger (run_state ?r') u = ledger (run_state r) u" ..
  from 1 2 3 4 5 show ?thesis by blast
qed

text \<open>
  In a run that is not a dry run, line 105 stores the list of the feed just worked
  through in the place of the whole \<^verbatim>\<open>dupecheck\<close> dictionary. Whatever feed comes
  next, line 64 indexes that list with the feed's address and raises TypeError: the run
  ends there, without a fetch.
\<close>

lemma next_feed_raises:
  assumes "\<not> dry_run args"
      and "feed_step env args feed r = (None, r')"
  shows "fst (main_loop env args (feed' # feeds) r') = Some TypeError
       \<and> run_trace (snd (main_loop env args (feed' # feeds) r')) = run_trace r'
       \<and> run_file (snd (main_loop env args (feed' # feeds) r')) = run_file r'"
proof (cases "dupecheck (run_state r)")
  case (TSlot s)
  with assms(2) show ?thesis by (simp add: feed_step_TSlot)
next
  case (TDict d)
  let ?w = "watermark (run_state r) (f_url feed)"
  let ?tr = "run_trace r @ (if verbose args then [PrintFetching (f_url feed) ?w] else [])"
  show ?thesis
  proof (cases "get_feed env ?tr (f_url feed) (Some ?w)")
    case (Inl err)
    from assms(2) show ?thesis
      unfolding feed_step_fetch_fails [OF TDict Inl] by simp
  next
    case (Inr items)
    let ?lp0 = "\<lparr> lp_newest_post = ?w, lp_dupes = fst (defaultdict_get (SList []) d (f_url feed)),
                   lp_trace = ?tr @ [FeedparserParse (f_url feed)] \<rparr>"
    obtain e lp where el: "entries_loop env args feed items ?lp0 = (e, lp)"
      by (cases "entries_loop env args feed items ?lp0") auto
    from assms have "\<exists>s. dupecheck (run_state r') = TSlot s"
      unfolding feed_step_loop [OF TDict Inr el]
      by (auto split: if_splits)
    then obtain s where "dupecheck (run_state r') = TSlot s" ..
    then show ?thesis by (simp add: feed_step_TSlot)
  qed
qed

text \<open>
  C8 fails on the code in a run that is not a dry run. The first of the two configured
  feeds does not answer, \<^verbatim>\<open>feedparser.parse\<close> returns no entries for it, and the
  program goes on as after any feed: it saves the state, with the feed's empty list in
  the place of the \<^verbatim>\<open>dupecheck\<close> dictionary, and raises TypeError at line 64 for
  feed \<open>a\<close>, which is never fetched. In the dry run on the same feeds nothing is saved
  and feed \<open>a\<close> is worked through.
\<close>

theorem failed_fetch_ends_run:
  "main demo_env demo_args
     (Some [demo_feed ''https://down.example/feed'', demo_feed ''https://a.example/feed'']) Absent
   = (Some TypeError,
      \<lparr> run_state = \<lparr> updated = [(''https://down.example/feed'', 0),
                                 (''https://a.example/feed'', 0)],
                      dupecheck = TSlot (SList []) \<rparr>,
        run_file =
          Doc \<lparr> doc_updated = Some [(''https://down.example/feed'', ''0001-01-01T00:00:00+00:00'')],
                doc_dupecheck = Some (TSlot (SList [])) \<rparr>,
        run_trace =
          [FeedparserParse ''https://down.example/feed'',
           SaveState
             (Doc \<lparr> doc_updated = Some [(''https://down.example/feed'', ''0001-01-01T00:00:00+00:00'')],
                    doc_dupecheck = Some (TSlot (SList [])) \<rparr>)] \<rparr>)
   \<and> main demo_env (demo_args\<lparr>dry_run := True\<rparr>)
       (Some [demo_feed ''https://down.example/feed'', demo_feed ''https://a.example/feed'']) Absent
   = (None,
      \<lparr> run_state = \<lparr> updated = [(''https://down.example/feed'', 0),
                                 (''https://a.example/feed'', 0)],
                      dupecheck = TDict [(''https://down.example/feed'', SList []),
                                         (''https://a.example/feed'', SList [])] \<rparr>,
        run_file = Absent,
        run_trace =
          [FeedparserParse ''https://down.example/feed'',
           FeedparserParse ''https://a.example/feed'',
           Print ''First a1'', Print ''Second a2''] \<rparr>)"
  by code_simp

subsection \<open>The saved state does not load\<close>

text \<open>
  C2 fails on the code. A run with \<^verbatim>\<open>--dedupe link\<close> on feed \<open>d\<close> publishes the
  first entry and records its link. Line 105 then stores the list of this feed in the
  place of the whole \<^verbatim>\<open>dupecheck\<close> dictionary, \<^verbatim>\<open>save_state\<close> writes it so, and
  \<^verbatim>\<open>read_state\<close> raises ValueError on the file: \<^verbatim>\<open>update\<close> wants pairs and finds a
  string of 22 characters. For the same reason a run on two feeds that is not a dry run
  raises TypeError at line 64 for the second feed.
\<close>

theorem saved_ledger_does_not_load:
  "main demo_env (demo_args\<lparr>dedupe := ''link''\<rparr>)
     (Some [demo_feed ''https://d.example/feed'']) Absent
   = (None,
      \<lparr> run_state = \<lparr> updated = [(''https://d.example/feed'', 63839750400000000)],
                      dupecheck = TSlot (SList [PStr ''https://d.example/same'']) \<rparr>,
        run_file =
          Doc \<lparr> doc_updated = Some [(''https://d.example/feed'', ''2024-01-02T00:00:00+00:00'')],
                doc_dupecheck = Some (TSlot (SList [PStr ''https://d.example/same''])) \<rparr>,
        run_trace =
          [FeedparserParse ''https://d.example/feed'', StatusPost ''One d1'' [],
           SaveState
             (Doc \<lparr> doc_updated = Some [(''https://d.example/feed'', ''2024-01-02T00:00:00+00:00'')],
                    doc_dupecheck = Some (TSlot (SList [PStr ''https://d.example/same''])) \<rparr>)] \<rparr>)
   \<and> read_state demo_env
        (Doc \<lparr> doc_updated = Some [(''https://d.example/feed'', ''2024-01-02T00:00:00+00:00'')],
               doc_dupecheck = Some (TSlot (SList [PStr ''https://d.example/same''])) \<rparr>)
      = Inl ValueError
   \<and> fst (main demo_env demo_args
        (Some [demo_feed ''https://a.example/feed'', demo_feed ''https://d.example/feed'']) Absent)
      = Some TypeError"
  by code_simp

subsection \<open>What a run leaves in the state file\<close>

lemma dict_set_new: "k \<notin> fst ` set d \<Longrightarrow> dict_set k v d = d @ [(k, v)]"
  by (induction d) auto

lemma update_items_distinct:
  "distinct (map fst (d @ kvs)) \<Longrightarrow> update_items d kvs = d @ kvs"
proof (induction kvs arbitrary: d)
  case Nil
  then show ?case by simp
next
  case (Cons kv kvs)
  obtain k v where kv: "kv = (k, v)" by (cases kv)
  with Cons.prems have "k \<notin> fst ` set d" by auto
  then have s: "dict_set k v d = d @ [(k, v)]" by (rule dict_set_new)
  from Cons.prems kv have "distinct (map fst ((d @ [(k, v)]) @ kvs))" by simp
  from Cons.IH [OF this] s kv show ?case by simp
qed

lemma distinct_update_items:
  "distinct (map fst d) \<Longrightarrow> distinct (map fst (update_items d kvs))"
proof (induction kvs arbitrary: d)
  case Nil
  then show ?case by simp
next
  case (Cons kv kvs)
  obtain k v where kv: "kv = (k, v)" by (cases kv)
  from Cons.prems have "distinct (map fst (dict_set k v d))" by (rule distinct_dict_set)
  from Cons.IH [OF this] kv show ?case by simp
qed

lemma read_state_distinct:
  "read_state env state_file = Inr st \<Longrightarrow> distinct (map fst (updated st))"
  by (auto simp: read_state_def distinct_update_items
           split: file_content.splits sum.splits option.splits)

lemma parse_items_isoformat:
  "\<forall>kv \<in> set m. dateutil_parse env (isoformat env (snd kv)) = Inr (snd kv) \<Longrightarrow>
   parse_items env (map (\<lambda>kv. (fst kv, isoformat env (snd kv))) m) = Inr m"
  by (induction m) auto

lemma read_saved_updated:
  assumes "distinct (map fst (updated S))"
      and "\<forall>kv \<in> set (updated S). dateutil_parse env (isoformat env (snd kv)) = Inr (snd kv)"
      and "read_state env (snd (save_state env S)) = Inr st1"
  shows "updated st1 = updated S"
proof (cases "json_top (dupecheck S)")
  case False
  with assms(3) show ?thesis by (simp add: save_state_def read_state_def)
next
  case True
  from assms(1) have "update_items [] (updated S) = updated S"
    using update_items_distinct [of "[]" "updated S"] by simp
  with True assms(3) parse_items_isoformat [OF assms(2)] show ?thesis
    by (auto simp: save_state_def read_state_def split: sum.splits)
qed

lemma file_kept_grow:
  assumes "file_kept env r0 r"
      and "run_file r' = run_file r"
      and "updated (run_state r') = snd (defaultdict_get datetime_min (updated (run_state r)) k)"
  shows "file_kept env r0 r'"
proof -
  from assms(3) have w: "\<And>u. watermark (run_state r') u = watermark (run_state r) u"
    by (simp add: watermark_eq dict_lookup_defaultdict_get)
  from assms(3) have s: "set (updated (run_state r)) \<subseteq> set (updated (run_state r'))"
    by (simp add: set_defaultdict_get)
  from assms(1,3) have d: "distinct (map fst (updated (run_state r')))"
    by (simp add: file_kept_def distinct_defaultdict_get)
  from assms(1) have "run_file r = run_file r0
        \<or> (\<exists>S. run_file r = snd (save_state env S)
               \<and> distinct (map fst (updated S))
               \<and> set (updated S) \<subseteq> set (updated (run_state r))
               \<and> (\<forall>u. watermark (run_state r0) u \<le> watermark S u))"
    by (simp add: file_kept_def)
  with s assms(2) have "run_file r' = run_file r0
        \<or> (\<exists>S. run_file r' = snd (save_state env S)
               \<and> distinct (map fst (updated S))
               \<and> set (updated S) \<subseteq> set (updated (run_state r'))
               \<and> (\<forall>u. watermark (run_state r0) u \<le> watermark S u))"
    by (metis subset_trans)
  with d w assms(1) show ?thesis by (simp add: file_kept_def)
qed

lemma file_kept_saved:
  assumes "file_kept env r0 r"
      and "run_file r' = snd (save_state env (run_state r'))"
      and "distinct (map fst (updated (run_state r')))"
      and "\<forall>u. watermark (run_state r) u \<le> watermark (run_state r') u"
  shows "file_kept env r0 r'"
proof -
  from assms(1,4) have m: "\<forall>u. watermark (run_state r0) u \<le> watermark (run_state r') u"
    unfolding file_kept_def by (meson order_trans)
  with assms(2,3) have "\<exists>S. run_file r' = snd (save_state env S)
               \<and> distinct (map fst (updated S))
               \<and> set (updated S) \<subseteq> set (updated (run_state r'))
               \<and> (\<forall>u. watermark (run_state r0) u \<le> watermark S u)"
    by blast
  with m assms(3) show ?thesis by (simp add: file_kept_def)
qed

lemma feed_step_file_kept:
  assumes "file_kept env r0 r"
  shows "file_kept env r0 (snd (feed_step env args feed r))"
proof (cases "dupecheck (run_state r)")
  case (TSlot s)
  show ?thesis
    unfolding feed_step_TSlot [OF TSlot]
    by (rule file_kept_grow [OF assms, of _ "f_url feed"]) simp_all
next
  case (TDict d)
  let ?w = "watermark (run_state r) (f_url feed)"
  let ?tr = "run_trace r @ (if verbose args then [PrintFetching (f_url feed) ?w] else [])"
  show ?thesis
  proof (cases "get_feed env ?tr (f_url feed) (Some ?w)")
    case (Inl err)
    show ?thesis
      unfolding feed_step_fetch_fails [OF TDict Inl]
      by (rule file_kept_grow [OF assms, of _ "f_url feed"]) simp_all
  next
    case (Inr items)
    let ?lp0 = "\<lparr> lp_newest_post = ?w, lp_dupes = fst (defaultdict_get (SList []) d (f_url feed)),
                   lp_trace = ?tr @ [FeedparserParse (f_url feed)] \<rparr>"
    obtain e lp where el: "entries_loop env args feed items ?lp0 = (e, lp)"
      by (cases "entries_loop env args feed items ?lp0") auto
    show ?thesis
    proof (cases "e \<noteq> None \<or> dry_run args")
      case True
      then show ?thesis
        unfolding feed_step_loop [OF TDict Inr el]
        by (simp del: not_None_eq)
           (rule file_kept_grow [OF assms, of _ "f_url feed"], simp_all)
    next
      case False
      from feed_step_watermark_mono [of r _ env args feed]
      have m: "\<forall>u. watermark (run_state r) u
                 \<le> watermark (run_state (snd (feed_step env args feed r))) u" by blast
      from assms have "distinct (map fst (updated (run_state r)))" by (simp add: file_kept_def)
      then have dd: "distinct (map fst (dict_set (f_url feed) (lp_newest_post lp)
            (snd (defaultdict_get datetime_min (updated (run_state r)) (f_url feed)))))"
        by (simp add: distinct_dict_set distinct_defaultdict_get)
      show ?thesis
      proof (rule file_kept_saved [OF assms _ _ m])
        show "run_file (snd (feed_step env args feed r))
                = snd (save_state env (run_state (snd (feed_step env args feed r))))"
          unfolding feed_step_loop [OF TDict Inr el] using False by simp
        show "distinct (map fst (updated (run_state (snd (feed_step env args feed r)))))"
          unfolding feed_step_loop [OF TDict Inr el] using False dd by simp
      qed
    qed
  qed
qed

lemma main_loop_file_kept:
  "file_kept env r0 r \<Longrightarrow> file_kept env r0 (snd (main_loop env args feeds r))"
proof (induction feeds arbitrary: r)
  case Nil
  then show ?case by simp
next
  case (Cons feed feeds)
  obtain e r1 where f: "feed_step env args feed r = (e, r1)"
    by (cases "feed_step env args feed r") auto
  from feed_step_file_kept [OF Cons.prems, of args feed] f
  have 1: "file_kept env r0 r1" by simp
  show ?case
  proof (cases e)
    case (Some err)
    with f 1 show ?thesis by simp
  next
    case None
    with f Cons.IH [OF 1] show ?thesis by simp
  qed
qed

text \<open>
  The first-run dialogue lowers no watermark either: the state file it leaves is the
  one it found, or holds the state it loaded, saved again.
\<close>

lemma setup_fn_file:
  assumes "read_state env state_file = Inr st0"
      and "setup_fn env state_file tr = (res, file', tr')"
  shows "file' = state_file \<or> file' = snd (save_state env st0)"
  using assms
  by (auto simp: setup_fn_def Let_def split_def split: prod.splits option.splits if_splits)

lemma setup_fn_keeps_watermarks:
  assumes "read_state env state_file = Inr st0"
      and "setup_fn env state_file tr = (res, file', tr')"
      and "\<forall>kv \<in> set (updated st0). dateutil_parse env (isoformat env (snd kv)) = Inr (snd kv)"
      and "read_state env file' = Inr st1"
  shows "updated st1 = updated st0"
proof -
  from setup_fn_file [OF assms(1,2)] consider "file' = state_file"
    | "file' = snd (save_state env st0)" by blast
  then show ?thesis
  proof cases
    case 1
    with assms(1,4) show ?thesis by simp
  next
    case 2
    from read_saved_updated [OF read_state_distinct [OF assms(1)] assms(3)] assms(4) 2
    show ?thesis by simp
  qed
qed

text \<open>
  So a run without a configuration file, which starts with the dialogue, leaves a state
  file whose watermarks are not below the ones it found, under the same condition on
  \<^verbatim>\<open>isoformat\<close> and \<^verbatim>\<open>dateutil.parser.parse\<close>.
\<close>

lemma main_loop_next_run:
  assumes "read_state env f = Inr s0"
      and "main_loop env args feeds \<lparr> run_state = s0, run_file = f, run_trace = tr \<rparr> = (err, r)"
      and "\<forall>kv \<in> set (updated (run_state r)).
              dateutil_parse env (isoformat env (snd kv)) = Inr (snd kv)"
      and "read_state env (run_file r) = Inr st1"
  shows "watermark s0 u \<le> watermark st1 u"
proof -
  let ?r0 = "\<lparr> run_state = s0, run_file = f, run_trace = tr \<rparr>"
  from assms(2) have r: "r = snd (main_loop env args feeds ?r0)" by simp
  from read_state_distinct [OF assms(1)] have "file_kept env ?r0 ?r0"
    by (simp add: file_kept_def)
  from main_loop_file_kept [OF this, of args feeds] r have "file_kept env ?r0 r" by simp
  then consider (same) "run_file r = f"
    | (saved) S where "run_file r = snd (save_state env S)"
        "distinct (map fst (updated S))"
        "set (updated S) \<subseteq> set (updated (run_state r))"
        "watermark s0 u \<le> watermark S u"
    unfolding file_kept_def by auto
  then show ?thesis
  proof cases
    case same
    with assms(1,4) show ?thesis by simp
  next
    case saved
    from saved(3) assms(3) have "\<forall>kv \<in> set (updated S).
        dateutil_parse env (isoformat env (snd kv)) = Inr (snd kv)" by blast
    from read_saved_updated [OF saved(2) this] assms(4) saved(1)
    have "updated st1 = updated S" by simp
    with saved(4) show ?thesis by (simp add: watermark_eq)
  qed
qed

lemma first_run_keeps_watermarks:
  assumes "read_state env state_file = Inr st0"
      and "main env args None state_file = (err, r)"
      and "\<forall>kv \<in> set (updated st0). dateutil_parse env (isoformat env (snd kv)) = Inr (snd kv)"
      and "\<forall>kv \<in> set (updated (run_state r)).
              dateutil_parse env (isoformat env (snd kv)) = Inr (snd kv)"
      and "read_state env (run_file r) = Inr st1"
  shows "watermark st0 u \<le> watermark st1 u"
proof -
  let ?tr = "if verbose args then [PrintUsingFiles] else []"
  obtain res file' tr' where sf: "setup_fn env state_file ?tr = (res, file', tr')"
    by (cases "setup_fn env state_file ?tr") auto
  note keep = setup_fn_keeps_watermarks [OF assms(1) sf assms(3)]
  show ?thesis
  proof (cases res)
    case (Inl e)
    with assms(2) sf have "run_file r = file'" by (auto simp: main_def)
    with keep assms(5) have "updated st1 = updated st0" by simp
    then show ?thesis by (simp add: watermark_eq)
  next
    case feeds: (Inr feeds)
    show ?thesis
    proof (cases "read_state env file'")
      case (Inl e)
      with assms(2) sf feeds have "run_file r = file'" by (auto simp: main_def)
      with Inl assms(5) show ?thesis by simp
    next
      case (Inr s0)
      with assms(2) sf feeds have
        "main_loop env args feeds \<lparr> run_state = s0, run_file = file', run_trace = tr' \<rparr> = (err, r)"
        by (simp add: main_def)
      from main_loop_next_run [OF Inr this assms(4,5)] have "watermark s0 u \<le> watermark st1 u" .
      moreover from keep [OF Inr] have "watermark s0 u = watermark st0 u"
        by (simp add: watermark_eq)
      ultimately show ?thesis by simp
    qed
  qed
qed

text \<open>
  C4. For a run that has its configuration file and has loaded its state: a feed
  without a stored date starts from
  \<^verbatim>\<open>datetime(MINYEAR, 1, 1, tzinfo=utc)\<close>; processing an entry sets
  \<^verbatim>\<open>newest_post\<close> to the maximum of itself and the entry's date; a feed that has been
  worked through and saved has as its watermark the maximum of the watermark it had and
  the dates of the entries that \<^verbatim>\<open>get_feed\<close> yielded; at the end of the
  run, however it ends, no feed's watermark in memory is below the loaded one; and if the
  dates in memory survive \<^verbatim>\<open>isoformat\<close> followed by \<^verbatim>\<open>dateutil.parser.parse\<close>,
  then whatever state the next run loads from the file this run leaves has no watermark
  below the loaded one either.
\<close>

theorem watermark_never_rewound:
  assumes "read_state env state_file = Inr st0"
      and "main env args (Some feeds) state_file = (err, r)"
  shows "(map_of (updated st0) u = None \<longrightarrow> watermark st0 u = datetime_min)
       \<and> lp_newest_post (snd (process_entry env args feed (Inr entry) lp))
           = max (lp_newest_post lp) (e_updated entry)
       \<and> (dupecheck (run_state r1) = TDict d \<and> \<not> dry_run args
            \<and> feed_step env args feed r1 = (None, r2) \<longrightarrow>
          (\<exists>entries.
             get_feed env
               (run_trace r1 @ (if verbose args
                  then [PrintFetching (f_url feed) (watermark (run_state r1) (f_url feed))]
                  else []))
               (f_url feed) (Some (watermark (run_state r1) (f_url feed)))
               = Inr (map Inr entries)
           \<and> watermark (run_state r2) (f_url feed)
               = foldl max (watermark (run_state r1) (f_url feed)) (map e_updated entries)))
       \<and> watermark st0 u \<le> watermark (run_state r) u
       \<and> ((\<forall>kv \<in> set (updated (run_state r)).
              dateutil_parse env (isoformat env (snd kv)) = Inr (snd kv)) \<longrightarrow>
           (\<forall>st1. read_state env (run_file r) = Inr st1 \<longrightarrow>
                  watermark st0 u \<le> watermark st1 u))"
proof -
  let ?r0 = "\<lparr> run_state = st0, run_file = state_file,
               run_trace = (if verbose args then [PrintUsingFiles] else []) \<rparr>"
  from assms have r: "r = snd (main_loop env args feeds ?r0)" by (simp add: main_def)
  have dflt: "map_of (updated st0) u = None \<longrightarrow> watermark st0 u = datetime_min"
    by (simp add: watermark_eq dict_lookup_def)
  from read_state_distinct [OF assms(1)] have "file_kept env ?r0 ?r0"
    by (simp add: file_kept_def)
  from main_loop_file_kept [OF this, of args feeds] r have k: "file_kept env ?r0 r" by simp
  then have mono: "watermark st0 u \<le> watermark (run_state r) u"
    by (simp add: file_kept_def)
  have next_run: "\<forall>st1. read_state env (run_file r) = Inr st1 \<longrightarrow>
                     watermark st0 u \<le> watermark st1 u"
    if rt: "\<forall>kv \<in> set (updated (run_state r)).
              dateutil_parse env (isoformat env (snd kv)) = Inr (snd kv)"
  proof (intro allI impI)
    fix st1 assume l: "read_state env (run_file r) = Inr st1"
    from k consider (same) "run_file r = state_file"
      | (saved) S where "run_file r = snd (save_state env S)"
          "distinct (map fst (updated S))"
          "set (updated S) \<subseteq> set (updated (run_state r))"
          "watermark st0 u \<le> watermark S u"
      unfolding file_kept_def by auto
    then show "watermark st0 u \<le> watermark st1 u"
    proof cases
      case same
      with l assms(1) show ?thesis by simp
    next
      case saved
      from saved(3) rt have "\<forall>kv \<in> set (updated S).
          dateutil_parse env (isoformat env (snd kv)) = Inr (snd kv)" by blast
      from read_saved_updated [OF saved(2) this] l saved(1)
      have "updated st1 = updated S" by simp
      with saved(4) show ?thesis by (simp add: watermark_eq)
    qed
  qed
  have stored: "dupecheck (run_state r1) = TDict d \<and> \<not> dry_run args
            \<and> feed_step env args feed r1 = (None, r2) \<longrightarrow>
          (\<exists>entries.
             get_feed env
               (run_trace r1 @ (if verbose args
                  then [PrintFetching (f_url feed) (watermark (run_state r1) (f_url feed))]
                  else []))
               (f_url feed) (Some (watermark (run_state r1) (f_url feed)))
               = Inr (map Inr entries)
           \<and> watermark (run_state r2) (f_url feed)
               = foldl max (watermark (run_state r1) (f_url feed)) (map e_updated entries))"
    using feed_step_stores_max [of r1 d args env feed r2] by blast
  from dflt mono next_run stored process_entry_newest [of env args feed entry lp]
  show ?thesis by blast
qed

theorem watermark_never_rewound_witness:
  "read_state demo_env Absent = Inr \<lparr> updated = [], dupecheck = TDict [] \<rparr>
   \<and> main demo_env demo_args (Some [demo_feed ''https://a.example/feed'']) Absent
      = (None,
         \<lparr> run_state = \<lparr> updated = [(''https://a.example/feed'', 63839750400000000)],
                         dupecheck = TSlot (SList []) \<rparr>,
           run_file =
             Doc \<lparr> doc_updated = Some [(''https://a.example/feed'', ''2024-01-02T00:00:00+00:00'')],
                   doc_dupecheck = Some (TSlot (SList [])) \<rparr>,
           run_trace =
             [FeedparserParse ''https://a.example/feed'',
              StatusPost ''First a1'' [], StatusPost ''Second a2'' [],
              SaveState
                (Doc \<lparr> doc_updated = Some [(''https://a.example/feed'', ''2024-01-02T00:00:00+00:00'')],
                       doc_dupecheck = Some (TSlot (SList [])) \<rparr>)] \<rparr>)
   \<and> map_of (updated \<lparr> updated = [], dupecheck = TDict [] \<rparr>) ''https://a.example/feed'' = None
   \<and> watermark \<lparr> updated = [(''https://a.example/feed'', 63839750400000000)],
                   dupecheck = TSlot (SList []) \<rparr> ''https://a.example/feed''
        = foldl max (watermark \<lparr> updated = [], dupecheck = TDict [] \<rparr> ''https://a.example/feed'')
            [63839664000000000, 63839750400000000]
   \<and> dateutil_parse demo_env (isoformat demo_env 63839750400000000)
        = Inr 63839750400000000
   \<and> read_state demo_env
        (Doc \<lparr> doc_updated = Some [(''https://a.example/feed'', ''2024-01-02T00:00:00+00:00'')],
               doc_dupecheck = Some (TSlot (SList [])) \<rparr>)
      = Inr \<lparr> updated = [(''https://a.example/feed'', 63839750400000000)],
              dupecheck = TDict [] \<rparr>
   \<and> watermark \<lparr> updated = [], dupecheck = TDict [] \<rparr> ''https://a.example/feed''
        \<le> watermark \<lparr> updated = [(''https://a.example/feed'', 63839750400000000)],
                        dupecheck = TSlot (SList []) \<rparr> ''https://a.example/feed''
   \<and> watermark \<lparr> updated = [], dupecheck = TDict [] \<rparr> ''https://a.example/feed''
        \<le> watermark \<lparr> updated = [(''https://a.example/feed'', 63839750400000000)],
                        dupecheck = TDict [] \<rparr> ''https://a.example/feed''"
proof -
  let ?R = "\<lparr> run_state = \<lparr> updated = [(''https://a.example/feed'', 63839750400000000)],
                         dupecheck = TSlot (SList []) \<rparr>,
           run_file =
             Doc \<lparr> doc_updated = Some [(''https://a.example/feed'', ''2024-01-02T00:00:00+00:00'')],
                   doc_dupecheck = Some (TSlot (SList [])) \<rparr>,
           run_trace =
             [FeedparserParse ''https://a.example/feed'',
              StatusPost ''First a1'' [], StatusPost ''Second a2'' [],
              SaveState
                (Doc \<lparr> doc_updated = Some [(''https://a.example/feed'', ''2024-01-02T00:00:00+00:00'')],
                       doc_dupecheck = Some (TSlot (SList [])) \<rparr>)] \<rparr>"
  have h1: "read_state demo_env Absent = Inr \<lparr> updated = [], dupecheck = TDict [] \<rparr>"
    by (simp add: read_state_def)
  have h2: "main demo_env demo_args (Some [demo_feed ''https://a.example/feed'']) Absent
              = (None, ?R)"
    by code_simp
  have h3: "map_of (updated \<lparr> updated = [], dupecheck = TDict [] \<rparr>) ''https://a.example/feed''
              = None" by simp
  have h4: "\<forall>kv \<in> set (updated (run_state ?R)).
          dateutil_parse demo_env (isoformat demo_env (snd kv)) = Inr (snd kv)"
    by (simp add: demo_env_def demo_parse_def demo_isoformat_def demo_dates_def)
  have h5: "read_state demo_env (run_file ?R)
      = Inr \<lparr> updated = [(''https://a.example/feed'', 63839750400000000)],
              dupecheck = TDict [] \<rparr>"
    by code_simp
  note t = watermark_never_rewound [OF h1 h2, of "''https://a.example/feed''"
             "demo_feed ''https://a.example/feed''" demo_first demo_loop]
  from t have a: "watermark \<lparr> updated = [], dupecheck = TDict [] \<rparr> ''https://a.example/feed''
        \<le> watermark (run_state ?R) ''https://a.example/feed''" by blast
  from t h4 h5 have b: "watermark \<lparr> updated = [], dupecheck = TDict [] \<rparr> ''https://a.example/feed''
        \<le> watermark \<lparr> updated = [(''https://a.example/feed'', 63839750400000000)],
                        dupecheck = TDict [] \<rparr> ''https://a.example/feed''" by blast
  have h4': "dateutil_parse demo_env (isoformat demo_env 63839750400000000)
        = Inr 63839750400000000"
    by (simp add: demo_env_def demo_parse_def demo_isoformat_def demo_dates_def)
  have c: "watermark (run_state ?R) ''https://a.example/feed''
        = foldl max (watermark \<lparr> updated = [], dupecheck = TDict [] \<rparr> ''https://a.example/feed'')
            [63839664000000000, 63839750400000000]"
    by (simp add: watermark_eq dict_lookup_def datetime_min_def)
  from h1 h2 h3 h4' h5 a b c show ?thesis by simp
qed

subsection \<open>Fetching and filtering\<close>





text \<open>
  What \<^verbatim>\<open>get_feed\<close> hands to \<^verbatim>\<open>get_entry\<close> has passed the comparison of line
  114: its date is there, parses, and names a time zone. So the date that
  \<^verbatim>\<open>get_entry\<close> stores is that aware datetime.
\<close>

lemma select_Inr:
  "select p es = Inr es' \<Longrightarrow> set es' \<subseteq> set es \<and> (\<forall>e \<in> set es. \<exists>b. p e = Inr b)"
proof (induction es arbitrary: es')
  case Nil
  then show ?case by simp
next
  case (Cons e es)
  from Cons.prems obtain b es0 where "p e = Inr b" "select p es = Inr es0"
    "es' = (if b then e # es0 else es0)"
    by (auto split: sum.splits)
  with Cons.IH [of es0] show ?case by auto
qed

lemma get_feed_entries_aware:
  assumes "get_feed_entries env tr feed_url last_update = Inr entries"
      and "e \<in> set entries"
  shows "\<exists>t. aware_instant env e = Inr t \<and> entry_instant env e = Inr t"
proof -
  let ?now = "datetime_now env (tr @ [FeedparserParse feed_url])"
  from assms(1) obtain feed_entries es1 es2 where
    s1: "select (not_after env ?now) feed_entries = Inr es1"
    and s2: "(case last_update of None \<Rightarrow> Inr es1
              | Some lu \<Rightarrow> select (newer_than env lu) es1) = Inr es2"
    and s3: "sort_entries es2 = Inr entries"
    by (auto simp: get_feed_entries_def Let_def split: sum.splits)
  from s3 have "set entries = set es2"
    by (auto simp: sort_entries_def split: if_splits)
  moreover from s2 have "set es2 \<subseteq> set es1"
    by (cases last_update) (auto dest: select_Inr)
  moreover from s1 have "set es1 \<subseteq> set feed_entries"
    by (auto dest: select_Inr)
  ultimately have "e \<in> set feed_entries" using assms(2) by blast
  with select_Inr [OF s1] obtain b where "not_after env ?now e = Inr b" by blast
  then obtain t where t: "aware_instant env e = Inr t"
    by (auto simp: not_after_def split: sum.splits)
  then have "entry_instant env e = Inr t"
    by (auto simp: aware_instant_def entry_instant_def split: option.splits sum.splits if_splits)
  with t show ?thesis by blast
qed

text \<open>
  A date without a time zone ends \<^verbatim>\<open>get_feed\<close> with the TypeError of line 114: feed
  \<open>n\<close> of the examples.
\<close>

lemma zoneless_date_raises:
  "get_feed demo_env [] ''https://n.example/feed'' (Some datetime_min) = Inl TypeError"
  by code_simp




end
